theory Spec2Isabelle
  imports Complex_Main
begin

section \<open>The LONIX schema: tables, triggers and row-level policies\<close>

text \<open>
  The embedding follows the auto-configuration SQL script (tables, the PL/pgSQL functions
  and triggers, the row-level-security policies) and the two sticker pages of the client
  (\<^verbatim>\<open>handlePurchase\<close>, \<^verbatim>\<open>handleSubmit\<close>).

  A table is the list of its rows, in insertion order. A nullable column is an \<open>option\<close> (\<open>None\<close> is SQL NULL). A statement that the
  database rejects returns \<open>Inl\<close> of the error and leaves no trace, as the rolled-back
  transaction does. Columns that no trigger, constraint or policy reads (urls, free text,
  \<^verbatim>\<open>created_at\<close> of most tables) are left out of the rows.
\<close>

type_synonym uuid = nat
type_synonym timestamptz = int

subsection \<open>Ephemeral content\<close>

text \<open>
  \<^verbatim>\<open>CREATE TABLE ephemeral_content (id, creator_id, ..., duration_hours, expires_at, ...)\<close>
\<close>

record ephemeral_content_row =
  e_id :: uuid
  e_creator_id :: uuid
  e_duration_hours :: int
  e_expires_at :: timestamptz
  e_created_at :: timestamptz

text \<open>
  \<^verbatim>\<open>CREATE POLICY "Ephemeral content is viewable by everyone" ON ephemeral_content
    FOR SELECT USING (expires_at > NOW());\<close>
  It is the only SELECT policy of the table, and it does not read \<^verbatim>\<open>auth.uid()\<close>.
\<close>

definition ephemeral_select_policy :: "timestamptz \<Rightarrow> ephemeral_content_row \<Rightarrow> bool" where
  "ephemeral_select_policy now e = (e_expires_at e > now)"

text \<open>A \<^verbatim>\<open>SELECT\<close> on the table at time \<open>now\<close>, by any reader: the rows the policy lets through.\<close>

definition select_ephemeral_content ::
    "timestamptz \<Rightarrow> ephemeral_content_row list \<Rightarrow> ephemeral_content_row list" where
  "select_ephemeral_content now tbl = filter (ephemeral_select_policy now) tbl"

text \<open>
  The periodic sweep of the script's cron section:
  \<^verbatim>\<open>DELETE FROM public.ephemeral_content WHERE expires_at < NOW()\<close>
\<close>

definition cleanup_ephemeral_content ::
    "timestamptz \<Rightarrow> ephemeral_content_row list \<Rightarrow> ephemeral_content_row list" where
  "cleanup_ephemeral_content now tbl = filter (\<lambda>e. \<not> e_expires_at e < now) tbl"

subsection \<open>Sessions and row-level security\<close>

text \<open>
  The script ends its policy section with \<^verbatim>\<open>ALTER TABLE ... ENABLE ROW LEVEL SECURITY\<close>
  for every table. A statement of a client session (the pages connect as the visitor or as
  the logged-in user) therefore reads, updates and deletes only the rows that a policy of
  the table for that command lets through, silently skipping the others; an \<^verbatim>\<open>INSERT\<close>
  whose row fails the \<^verbatim>\<open>WITH CHECK\<close> is rejected; a table with no policy for a command
  lets nothing through. An \<^verbatim>\<open>UPDATE\<close> or \<^verbatim>\<open>DELETE\<close> with a \<^verbatim>\<open>WHERE\<close> clause also
  reads the row, so the SELECT policies apply to it as well.

  The statements inside a trigger function run with the rights of the session that fired
  the trigger, under the same policies, unless the function is \<^verbatim>\<open>SECURITY DEFINER\<close>:
  of the functions of the script only \<^verbatim>\<open>handle_new_user\<close> is. The role that owns the
  tables (it ran the script, and \<^verbatim>\<open>SECURITY DEFINER\<close> functions run as it) is not subject
  to the policies, no table being \<^verbatim>\<open>FORCE ROW LEVEL SECURITY\<close>. Constraint checks and
  \<^verbatim>\<open>ON DELETE CASCADE\<close> actions are not subject to them either.

  \<open>Client auth_uid\<close> is a client session; \<open>auth_uid\<close> is what \<^verbatim>\<open>auth.uid()\<close> returns:
  the id of the logged-in user, NULL for a visitor. A comparison with NULL is not true.
\<close>

datatype caller = Owner | Client "uuid option"

definition permits :: "caller \<Rightarrow> (uuid option \<Rightarrow> 'r \<Rightarrow> bool) \<Rightarrow> 'r \<Rightarrow> bool" where
  "permits c policy r = (case c of Owner \<Rightarrow> True | Client auth_uid \<Rightarrow> policy auth_uid r)"

subsection \<open>Conversations and messages\<close>

text \<open>
  \<^verbatim>\<open>CREATE TABLE conversation_participants (id, conversation_id, user_id, is_admin,
     joined_at, left_at, UNIQUE(conversation_id, user_id))\<close>
\<close>

record conversation_participants_row =
  cp_conversation_id :: uuid
  cp_user_id :: uuid
  cp_is_admin :: bool
  cp_left_at :: "timestamptz option"

record messages_row =
  m_id :: uuid
  m_conversation_id :: uuid
  m_sender_id :: uuid

text \<open>\<^verbatim>\<open>UNIQUE(conversation_id, user_id)\<close> as a property of the table.\<close>

definition unique_participants :: "conversation_participants_row list \<Rightarrow> bool" where
  "unique_participants parts =
     distinct (map (\<lambda>p. (cp_conversation_id p, cp_user_id p)) parts)"

text \<open>
  \<^verbatim>\<open>ALTER TABLE public.conversation_participants ENABLE ROW LEVEL SECURITY;\<close>
  and the script has no \<^verbatim>\<open>CREATE POLICY ... ON public.conversation_participants\<close>: no
  row of the table passes for a client session, whatever the command.
\<close>

definition conversation_participants_select_policy ::
    "uuid option \<Rightarrow> conversation_participants_row \<Rightarrow> bool" where
  "conversation_participants_select_policy auth_uid p = False"

definition select_conversation_participants ::
    "caller \<Rightarrow> conversation_participants_row list \<Rightarrow> conversation_participants_row list" where
  "select_conversation_participants c parts =
     filter (permits c conversation_participants_select_policy) parts"

text \<open>
  \<^verbatim>\<open>CREATE POLICY "Users can view messages in their conversations" ON messages
    FOR SELECT USING (EXISTS (SELECT 1 FROM conversation_participants
      WHERE conversation_id = messages.conversation_id
      AND user_id = auth.uid() AND left_at IS NULL));\<close>
  The sub-select is a statement of the session that reads \<^verbatim>\<open>messages\<close>: it ranges over
  the rows of \<^verbatim>\<open>conversation_participants\<close> that this session may select.
\<close>

definition messages_select_policy ::
    "uuid option \<Rightarrow> conversation_participants_row list \<Rightarrow> messages_row \<Rightarrow> bool" where
  "messages_select_policy auth_uid parts m =
     list_ex (\<lambda>p. cp_conversation_id p = m_conversation_id m
                 \<and> Some (cp_user_id p) = auth_uid
                 \<and> cp_left_at p = None)
       (select_conversation_participants (Client auth_uid) parts)"

text \<open>\<^verbatim>\<open>SELECT * FROM messages\<close> by a session.\<close>

definition select_messages ::
    "caller \<Rightarrow> conversation_participants_row list \<Rightarrow> messages_row list \<Rightarrow> messages_row list" where
  "select_messages c parts msgs =
     filter (permits c (\<lambda>auth_uid. messages_select_policy auth_uid parts)) msgs"

subsection \<open>Errors and column types\<close>

text \<open>
  The SQLSTATE classes a rejected statement of this schema can raise: a row that fails the
  \<^verbatim>\<open>WITH CHECK\<close> of the INSERT policies (\<^verbatim>\<open>new row violates row-level security policy\<close>),
  a PRIMARY KEY or UNIQUE violation, a FOREIGN KEY violation, and a value outside an
  \<^verbatim>\<open>INTEGER\<close> or \<^verbatim>\<open>DECIMAL(10,2)\<close> column or variable.
\<close>

datatype db_error =
    InsufficientPrivilege
  | UniqueViolation
  | ForeignKeyViolation
  | NumericValueOutOfRange

definition and_then :: "'e + 'a \<Rightarrow> ('a \<Rightarrow> 'e + 'b) \<Rightarrow> 'e + 'b" where
  "and_then m f = (case m of Inl e \<Rightarrow> Inl e | Inr x \<Rightarrow> f x)"

text \<open>\<^verbatim>\<open>INTEGER\<close> is 32 bits wide and signed; \<^verbatim>\<open>col + k\<close> on NULL is NULL.\<close>

definition int4_plus :: "int option \<Rightarrow> int \<Rightarrow> db_error + int option" where
  "int4_plus v k =
     (case v of
        None \<Rightarrow> Inr None
      | Some n \<Rightarrow>
          if - 2147483648 \<le> n + k \<and> n + k \<le> 2147483647 then Inr (Some (n + k))
          else Inl NumericValueOutOfRange)"

text \<open>\<^verbatim>\<open>GREATEST(0, v)\<close>: PostgreSQL's \<^verbatim>\<open>GREATEST\<close> ignores NULL arguments.\<close>

definition greatest0 :: "int option \<Rightarrow> int option" where
  "greatest0 v = (case v of None \<Rightarrow> Some 0 | Some n \<Rightarrow> Some (max 0 n))"

text \<open>\<^verbatim>\<open>COALESCE(v, 0)\<close>\<close>

definition coalesce0 :: "int option \<Rightarrow> int" where
  "coalesce0 v = (case v of None \<Rightarrow> 0 | Some n \<Rightarrow> n)"

text \<open>
  A value stored into \<^verbatim>\<open>DECIMAL(10,2)\<close> is rounded to two decimals (half away from
  zero) and rejected when eight digits before the point do not hold it.
\<close>

definition round_half_away :: "rat \<Rightarrow> int" where
  "round_half_away x = (if 0 \<le> x then \<lfloor>x + 1 / 2\<rfloor> else - \<lfloor>- x + 1 / 2\<rfloor>)"

definition decimal_10_2 :: "rat \<Rightarrow> db_error + rat" where
  "decimal_10_2 v =
     (let c = round_half_away (v * 100)
      in if \<bar>c\<bar> < 10000000000 then Inr (of_int c / 100) else Inl NumericValueOutOfRange)"

subsection \<open>Tables\<close>

text \<open>\<^verbatim>\<open>CREATE TABLE profiles (id PRIMARY KEY, username UNIQUE, display_name, ...,
  followers_count INTEGER DEFAULT 0, following_count INTEGER DEFAULT 0,
  posts_count INTEGER DEFAULT 0, ...)\<close>\<close>

record profiles_row =
  p_id :: uuid
  p_username :: "string option"
  p_display_name :: "string option"
  followers_count :: "int option"
  following_count :: "int option"
  posts_count :: "int option"

text \<open>\<^verbatim>\<open>CREATE TABLE posts (id PRIMARY KEY, creator_id REFERENCES profiles NOT NULL, ...,
  likes_count INTEGER DEFAULT 0, comments_count INTEGER DEFAULT 0,
  shares_count INTEGER DEFAULT 0, saves_count INTEGER DEFAULT 0,
  engagement_score DECIMAL(10,2) DEFAULT 0.00, is_private BOOLEAN DEFAULT FALSE, ...)\<close>\<close>

record posts_row =
  po_id :: uuid
  creator_id :: uuid
  likes_count :: "int option"
  comments_count :: "int option"
  shares_count :: "int option"
  saves_count :: "int option"
  engagement_score :: "rat option"
  is_private :: "bool option"

text \<open>\<^verbatim>\<open>CREATE TABLE follows (id, follower_id, following_id, created_at,
  UNIQUE(follower_id, following_id))\<close>. The surrogate \<^verbatim>\<open>id\<close> of this table and of
  \<^verbatim>\<open>post_likes\<close>, \<^verbatim>\<open>user_roles\<close> and \<^verbatim>\<open>user_purchases\<close> defaults to
  \<^verbatim>\<open>gen_random_uuid()\<close>, is never supplied by the client and is referenced by no
  other table, so it is left out.\<close>

record follows_row =
  follower_id :: uuid
  following_id :: uuid

text \<open>\<^verbatim>\<open>CREATE TABLE post_likes (id, post_id, user_id, created_at, UNIQUE(post_id, user_id))\<close>\<close>

record post_likes_row =
  pl_post_id :: uuid
  pl_user_id :: uuid

text \<open>\<^verbatim>\<open>CREATE TABLE comments (id PRIMARY KEY, post_id, user_id, content, ...,
  parent_id REFERENCES comments(id) ON DELETE CASCADE, ...)\<close>\<close>

record comments_row =
  c_id :: uuid
  c_post_id :: uuid
  c_user_id :: uuid
  c_parent_id :: "uuid option"

text \<open>\<^verbatim>\<open>CREATE TABLE user_roles (id, user_id, role CHECK (role IN ('user', 'moderator',
  'admin')) DEFAULT 'user', ..., UNIQUE(user_id))\<close>\<close>

datatype role = RoleUser | RoleModerator | RoleAdmin

record user_roles_row =
  ur_user_id :: uuid
  ur_role :: role

text \<open>\<^verbatim>\<open>create table user_settings (id, user_id references profiles(id) unique not null,
  privacy jsonb, notifications jsonb, appearance jsonb, security jsonb, ...)\<close>, of the initial
  schema migration; the four JSON documents are not interpreted.\<close>

record user_settings_row =
  us_user_id :: uuid

text \<open>\<^verbatim>\<open>CREATE TABLE sticker_packs (id PRIMARY KEY, creator_id, name NOT NULL, ...,
  price DECIMAL(10,2) DEFAULT 0.00, is_public BOOLEAN DEFAULT FALSE,
  is_approved BOOLEAN DEFAULT FALSE, sales_count INTEGER DEFAULT 0, ...)\<close>\<close>

record sticker_packs_row =
  sp_id :: uuid
  sp_creator_id :: uuid
  sp_name :: string
  sp_price :: rat
  sp_is_public :: bool
  sp_is_approved :: bool
  sp_sales_count :: int

text \<open>\<^verbatim>\<open>CREATE TABLE user_purchases (id, user_id REFERENCES profiles NOT NULL,
  pack_id REFERENCES sticker_packs NOT NULL, amount DECIMAL(10,2) NOT NULL,
  payment_id TEXT, created_at)\<close>: no UNIQUE constraint.\<close>

record user_purchases_row =
  up_user_id :: uuid
  up_pack_id :: uuid
  up_amount :: rat
  up_payment_id :: "string option"

record db =
  auth_users :: "uuid list"
  profiles :: "profiles_row list"
  user_roles :: "user_roles_row list"
  user_settings :: "user_settings_row list"
  posts :: "posts_row list"
  follows :: "follows_row list"
  post_likes :: "post_likes_row list"
  comments :: "comments_row list"
  sticker_packs :: "sticker_packs_row list"
  user_purchases :: "user_purchases_row list"

definition empty_db :: db where
  "empty_db = \<lparr>auth_users = [], profiles = [], user_roles = [], user_settings = [], posts = [],
     follows = [], post_likes = [], comments = [], sticker_packs = [], user_purchases = []\<rparr>"

text \<open>The three counter columns of \<^verbatim>\<open>profiles\<close>.\<close>

datatype counter_column = Followers_count | Following_count | Posts_count

fun get_col :: "counter_column \<Rightarrow> profiles_row \<Rightarrow> int option" where
  "get_col Followers_count p = followers_count p"
| "get_col Following_count p = following_count p"
| "get_col Posts_count p = posts_count p"

fun set_col :: "counter_column \<Rightarrow> int option \<Rightarrow> profiles_row \<Rightarrow> profiles_row" where
  "set_col Followers_count v p = p\<lparr>followers_count := v\<rparr>"
| "set_col Following_count v p = p\<lparr>following_count := v\<rparr>"
| "set_col Posts_count v p = p\<lparr>posts_count := v\<rparr>"

definition profile_of :: "db \<Rightarrow> uuid \<Rightarrow> profiles_row option" where
  "profile_of s u = find (\<lambda>p. p_id p = u) (profiles s)"

definition post_of :: "db \<Rightarrow> uuid \<Rightarrow> posts_row option" where
  "post_of s k = find (\<lambda>p. po_id p = k) (posts s)"

text \<open>The value of a counter column of profile \<open>u\<close>; \<open>None\<close> when there is no such profile
  or the column is NULL.\<close>

definition counter_of :: "counter_column \<Rightarrow> db \<Rightarrow> uuid \<Rightarrow> int option" where
  "counter_of col s u = (case profile_of s u of None \<Rightarrow> None | Some p \<Rightarrow> get_col col p)"

subsection \<open>Policies\<close>

text \<open>
  The policies of the tables that the statements below touch, each under the name of its
  table and command, as a predicate on \<^verbatim>\<open>auth.uid()\<close> and the row. The SELECT policies
  of \<^verbatim>\<open>profiles\<close>, \<^verbatim>\<open>follows\<close>, \<^verbatim>\<open>post_likes\<close> and \<^verbatim>\<open>comments\<close> are
  \<^verbatim>\<open>USING (TRUE)\<close> and filter nothing.
\<close>

text \<open>\<^verbatim>\<open>CREATE POLICY "Users can update their own profile" ON profiles
  FOR UPDATE USING (auth.uid() = id);\<close>\<close>

definition profiles_update_policy :: "uuid option \<Rightarrow> profiles_row \<Rightarrow> bool" where
  "profiles_update_policy auth_uid p = (auth_uid = Some (p_id p))"

text \<open>\<^verbatim>\<open>CREATE POLICY "Public posts are viewable by everyone" ON posts
  FOR SELECT USING (NOT is_private OR creator_id = auth.uid());\<close>
  With \<^verbatim>\<open>is_private\<close> NULL the first disjunct is NULL, and the row passes only through
  the second.\<close>

definition posts_select_policy :: "uuid option \<Rightarrow> posts_row \<Rightarrow> bool" where
  "posts_select_policy auth_uid p = (is_private p = Some False \<or> Some (creator_id p) = auth_uid)"

text \<open>\<^verbatim>\<open>"Users can insert their own posts" FOR INSERT WITH CHECK (auth.uid() = creator_id)\<close>,
  \<^verbatim>\<open>"Users can update their own posts" FOR UPDATE USING (auth.uid() = creator_id)\<close>,
  \<^verbatim>\<open>"Users can delete their own posts" FOR DELETE USING (auth.uid() = creator_id)\<close>\<close>

definition posts_insert_policy :: "uuid option \<Rightarrow> posts_row \<Rightarrow> bool" where
  "posts_insert_policy auth_uid p = (auth_uid = Some (creator_id p))"

definition posts_update_policy :: "uuid option \<Rightarrow> posts_row \<Rightarrow> bool" where
  "posts_update_policy auth_uid p = (auth_uid = Some (creator_id p))"

definition posts_delete_policy :: "uuid option \<Rightarrow> posts_row \<Rightarrow> bool" where
  "posts_delete_policy auth_uid p = (auth_uid = Some (creator_id p))"

text \<open>\<^verbatim>\<open>"Users can follow others" ON follows FOR INSERT WITH CHECK (auth.uid() = follower_id)\<close>,
  \<^verbatim>\<open>"Users can unfollow" ON follows FOR DELETE USING (auth.uid() = follower_id)\<close>\<close>

definition follows_insert_policy :: "uuid option \<Rightarrow> follows_row \<Rightarrow> bool" where
  "follows_insert_policy auth_uid r = (auth_uid = Some (follower_id r))"

definition follows_delete_policy :: "uuid option \<Rightarrow> follows_row \<Rightarrow> bool" where
  "follows_delete_policy auth_uid r = (auth_uid = Some (follower_id r))"

text \<open>\<^verbatim>\<open>"Users can like posts" ON post_likes FOR INSERT WITH CHECK (auth.uid() = user_id)\<close>,
  \<^verbatim>\<open>"Users can unlike posts" ON post_likes FOR DELETE USING (auth.uid() = user_id)\<close>\<close>

definition post_likes_insert_policy :: "uuid option \<Rightarrow> post_likes_row \<Rightarrow> bool" where
  "post_likes_insert_policy auth_uid r = (auth_uid = Some (pl_user_id r))"

definition post_likes_delete_policy :: "uuid option \<Rightarrow> post_likes_row \<Rightarrow> bool" where
  "post_likes_delete_policy auth_uid r = (auth_uid = Some (pl_user_id r))"

text \<open>\<^verbatim>\<open>"Authenticated users can comment" ON comments FOR INSERT WITH CHECK (auth.uid() = user_id)\<close>,
  \<^verbatim>\<open>"Users can delete their comments" ON comments FOR DELETE USING (auth.uid() = user_id)\<close>\<close>

definition comments_insert_policy :: "uuid option \<Rightarrow> comments_row \<Rightarrow> bool" where
  "comments_insert_policy auth_uid r = (auth_uid = Some (c_user_id r))"

definition comments_delete_policy :: "uuid option \<Rightarrow> comments_row \<Rightarrow> bool" where
  "comments_delete_policy auth_uid r = (auth_uid = Some (c_user_id r))"

text \<open>
  \<^verbatim>\<open>UPDATE t SET ... WHERE id = k\<close> on a table whose primary key is \<open>id\<close>, by a session
  that the policies let write the rows satisfying \<open>sees\<close>: no row, or a row the session
  may not write, no change and no error; otherwise the row is replaced, unless computing
  the new row fails.
\<close>

definition update_by_id ::
    "('r \<Rightarrow> uuid) \<Rightarrow> ('r \<Rightarrow> bool) \<Rightarrow> uuid \<Rightarrow> ('r \<Rightarrow> db_error + 'r) \<Rightarrow> 'r list \<Rightarrow> db_error + 'r list" where
  "update_by_id key sees k f rs =
     (case find (\<lambda>r. key r = k) rs of
        None \<Rightarrow> Inr rs
      | Some r \<Rightarrow>
          if sees r then and_then (f r) (\<lambda>r'. Inr (map (\<lambda>x. if key x = k then r' else x) rs))
          else Inr rs)"

text \<open>A \<^verbatim>\<open>FOR EACH ROW\<close> trigger runs once per affected row; the first error aborts.\<close>

fun for_each_row :: "('r \<Rightarrow> db \<Rightarrow> db_error + db) \<Rightarrow> 'r list \<Rightarrow> db \<Rightarrow> db_error + db" where
  "for_each_row t [] s = Inr s"
| "for_each_row t (r # rs) s = and_then (t r s) (for_each_row t rs)"

subsection \<open>Functions and triggers\<close>

datatype tg_op = INSERT | DELETE | UPDATE

text \<open>
  \<^verbatim>\<open>increment_counter(table_name, column_name, id)\<close> and \<^verbatim>\<open>decrement_counter\<close>
  build their statement from the names; every call of the script passes
  \<^verbatim>\<open>'profiles'\<close> and one of the three counter columns. Neither function is
  \<^verbatim>\<open>SECURITY DEFINER\<close>, nor is any trigger function that calls them: the \<^verbatim>\<open>UPDATE\<close>
  is a statement of the session \<open>c\<close> that fired the trigger, and reaches the profile row
  only if \<^verbatim>\<open>"Users can update their own profile"\<close> lets that session write it. The new
  row has the same \<^verbatim>\<open>id\<close>, so it passes the policy whenever the old one did.
\<close>

text \<open>\<^verbatim>\<open>UPDATE %I SET %I = %I + 1 WHERE id = $1\<close>\<close>

definition increment_counter :: "caller \<Rightarrow> counter_column \<Rightarrow> uuid \<Rightarrow> db \<Rightarrow> db_error + db" where
  "increment_counter c col u s =
     and_then
       (update_by_id p_id (permits c profiles_update_policy) u
          (\<lambda>p. and_then (int4_plus (get_col col p) 1) (\<lambda>v. Inr (set_col col v p)))
          (profiles s))
       (\<lambda>ps. Inr (s\<lparr>profiles := ps\<rparr>))"

text \<open>\<^verbatim>\<open>UPDATE %I SET %I = GREATEST(0, %I - 1) WHERE id = $1\<close>\<close>

definition decrement_counter :: "caller \<Rightarrow> counter_column \<Rightarrow> uuid \<Rightarrow> db \<Rightarrow> db_error + db" where
  "decrement_counter c col u s =
     and_then
       (update_by_id p_id (permits c profiles_update_policy) u
          (\<lambda>p. and_then (int4_plus (get_col col p) (- 1)) (\<lambda>v. Inr (set_col col (greatest0 v) p)))
          (profiles s))
       (\<lambda>ps. Inr (s\<lparr>profiles := ps\<rparr>))"

text \<open>
  \<^verbatim>\<open>SELECT COALESCE(likes_count, 0) * 1.0 + COALESCE(comments_count, 0) * 3.0 +
         COALESCE(shares_count, 0) * 5.0 + COALESCE(saves_count, 0) * 10.0
  INTO score FROM posts WHERE id = post_id\<close>
  where \<^verbatim>\<open>score DECIMAL(10,2)\<close>; with no such post among those the session may select,
  the score stays NULL.
\<close>

definition weighted_counts :: "posts_row \<Rightarrow> rat" where
  "weighted_counts p =
     of_int (coalesce0 (likes_count p)) * 1 + of_int (coalesce0 (comments_count p)) * 3
       + of_int (coalesce0 (shares_count p)) * 5 + of_int (coalesce0 (saves_count p)) * 10"

definition calculate_engagement_score :: "caller \<Rightarrow> uuid \<Rightarrow> db \<Rightarrow> db_error + rat option" where
  "calculate_engagement_score c post_id s =
     (case post_of s post_id of
        None \<Rightarrow> Inr None
      | Some p \<Rightarrow>
          if permits c posts_select_policy p
          then and_then (decimal_10_2 (weighted_counts p)) (\<lambda>score. Inr (Some score))
          else Inr None)"

text \<open>
  \<^verbatim>\<open>IF TG_OP = 'INSERT' THEN UPDATE posts SET engagement_score =
       calculate_engagement_score(NEW.post_id) WHERE id = NEW.post_id;
  ELSIF TG_OP = 'DELETE' THEN (the same with OLD.post_id) END IF;\<close>
  The third argument is \<^verbatim>\<open>NEW.post_id\<close> or \<^verbatim>\<open>OLD.post_id\<close>. The function is not
  \<^verbatim>\<open>SECURITY DEFINER\<close>: the \<^verbatim>\<open>UPDATE\<close> is a statement of the session that inserted or
  deleted the like or comment, and reaches the post only if
  \<^verbatim>\<open>"Users can update their own posts"\<close> and the SELECT policy let that session through.
  The new row differs from the old one in \<^verbatim>\<open>engagement_score\<close> only, which no policy
  reads.
\<close>

definition update_engagement_score :: "caller \<Rightarrow> tg_op \<Rightarrow> uuid \<Rightarrow> db \<Rightarrow> db_error + db" where
  "update_engagement_score c tg post_id s =
     (if tg = INSERT \<or> tg = DELETE then
        and_then
          (update_by_id po_id
             (\<lambda>p. permits c posts_update_policy p \<and> permits c posts_select_policy p) post_id
             (\<lambda>p. and_then (calculate_engagement_score c post_id s)
                     (\<lambda>score. Inr (p\<lparr>engagement_score := score\<rparr>)))
             (posts s))
          (\<lambda>ps. Inr (s\<lparr>posts := ps\<rparr>))
      else Inr s)"

text \<open>
  \<^verbatim>\<open>IF TG_OP = 'INSERT' THEN
       PERFORM increment_counter('profiles', 'following_count', NEW.follower_id);
       PERFORM increment_counter('profiles', 'followers_count', NEW.following_id);
  ELSIF TG_OP = 'DELETE' THEN
       PERFORM decrement_counter('profiles', 'following_count', OLD.follower_id);
       PERFORM decrement_counter('profiles', 'followers_count', OLD.following_id);
  END IF;\<close>
\<close>

definition update_follow_counts :: "caller \<Rightarrow> tg_op \<Rightarrow> follows_row \<Rightarrow> db \<Rightarrow> db_error + db" where
  "update_follow_counts c tg r s =
     (if tg = INSERT then
        and_then (increment_counter c Following_count (follower_id r) s)
          (increment_counter c Followers_count (following_id r))
      else if tg = DELETE then
        and_then (decrement_counter c Following_count (follower_id r) s)
          (decrement_counter c Followers_count (following_id r))
      else Inr s)"

text \<open>
  \<^verbatim>\<open>IF TG_OP = 'INSERT' THEN
       PERFORM increment_counter('profiles', 'posts_count', NEW.creator_id);
  ELSIF TG_OP = 'DELETE' THEN
       PERFORM decrement_counter('profiles', 'posts_count', OLD.creator_id);
  END IF;\<close>
\<close>

definition update_post_count :: "caller \<Rightarrow> tg_op \<Rightarrow> posts_row \<Rightarrow> db \<Rightarrow> db_error + db" where
  "update_post_count c tg r s =
     (if tg = INSERT then increment_counter c Posts_count (creator_id r) s
      else if tg = DELETE then decrement_counter c Posts_count (creator_id r) s
      else Inr s)"

text \<open>
  \<^verbatim>\<open>handle_new_user\<close>, the trigger \<^verbatim>\<open>AFTER INSERT ON auth.users\<close>:
  \<^verbatim>\<open>INSERT INTO profiles (id, display_name, username) VALUES (NEW.id,
       NEW.raw_user_meta_data->>'display_name', NEW.raw_user_meta_data->>'username');
  INSERT INTO user_roles (user_id, role) VALUES (NEW.id, 'user');\<close>
  The other columns take their defaults. \<^verbatim>\<open>username\<close> is UNIQUE (NULLs do not
  collide), \<^verbatim>\<open>profiles.id\<close> is the primary key, \<^verbatim>\<open>user_roles.user_id\<close> is UNIQUE.
  The function is \<^verbatim>\<open>SECURITY DEFINER\<close>: its inserts are not subject to the policies.
\<close>

record auth_users_row =
  au_id :: uuid
  au_display_name :: "string option"
  au_username :: "string option"

definition handle_new_user :: "auth_users_row \<Rightarrow> db \<Rightarrow> db_error + db" where
  "handle_new_user new s =
     (if list_ex (\<lambda>p. p_id p = au_id new) (profiles s) then Inl UniqueViolation
      else if au_username new \<noteq> None \<and> list_ex (\<lambda>p. p_username p = au_username new) (profiles s)
        then Inl UniqueViolation
      else if list_ex (\<lambda>r. ur_user_id r = au_id new) (user_roles s) then Inl UniqueViolation
      else Inr (s\<lparr>profiles := profiles s @
                    [\<lparr>p_id = au_id new, p_username = au_username new,
                      p_display_name = au_display_name new,
                      followers_count = Some 0, following_count = Some 0, posts_count = Some 0\<rparr>],
                 user_roles := user_roles s @ [\<lparr>ur_user_id = au_id new, ur_role = RoleUser\<rparr>]\<rparr>))"

subsection \<open>Statements\<close>

text \<open>
  Each statement is issued by a session \<open>c\<close>. An \<^verbatim>\<open>INSERT\<close> first checks the new row
  against the \<^verbatim>\<open>WITH CHECK\<close> of the INSERT policy, then the constraints of the table; a
  \<^verbatim>\<open>DELETE\<close> takes the rows of its \<^verbatim>\<open>WHERE\<close> clause that the DELETE and SELECT
  policies let the session see, and cascades where a foreign key says
  \<^verbatim>\<open>ON DELETE CASCADE\<close>. Then the \<^verbatim>\<open>AFTER ... FOR EACH ROW\<close> triggers of the rows the
  statement touched run, as statements of the same session. An error anywhere rejects the
  whole statement.
\<close>

text \<open>
  Account creation: a row of \<^verbatim>\<open>auth.users\<close>, then \<^verbatim>\<open>on_auth_user_created\<close>. The row
  is inserted by the authentication service, not by a session of the pages.
\<close>

definition signup :: "auth_users_row \<Rightarrow> db \<Rightarrow> db_error + db" where
  "signup new s =
     (if au_id new \<in> set (auth_users s) then Inl UniqueViolation
      else handle_new_user new (s\<lparr>auth_users := auth_users s @ [au_id new]\<rparr>))"

text \<open>\<^verbatim>\<open>INSERT INTO follows (follower_id, following_id)\<close>, then \<^verbatim>\<open>update_follow_counts_trigger\<close>.\<close>

definition insert_follow :: "caller \<Rightarrow> follows_row \<Rightarrow> db \<Rightarrow> db_error + db" where
  "insert_follow c r s =
     (if \<not> permits c follows_insert_policy r then Inl InsufficientPrivilege
      else if list_ex (\<lambda>x. follower_id x = follower_id r \<and> following_id x = following_id r) (follows s)
        then Inl UniqueViolation
      else if profile_of s (follower_id r) = None \<or> profile_of s (following_id r) = None
        then Inl ForeignKeyViolation
      else update_follow_counts c INSERT r (s\<lparr>follows := follows s @ [r]\<rparr>))"

text \<open>\<^verbatim>\<open>DELETE FROM follows WHERE follower_id = a AND following_id = b\<close>\<close>

definition delete_follow :: "caller \<Rightarrow> uuid \<Rightarrow> uuid \<Rightarrow> db \<Rightarrow> db_error + db" where
  "delete_follow c a b s =
     (let hit = (\<lambda>x. follower_id x = a \<and> following_id x = b \<and> permits c follows_delete_policy x)
      in for_each_row (update_follow_counts c DELETE) (filter hit (follows s))
           (s\<lparr>follows := filter (\<lambda>x. \<not> hit x) (follows s)\<rparr>))"

text \<open>\<^verbatim>\<open>INSERT INTO posts (id, creator_id, ..., is_private)\<close> with the counters at their
  defaults, then \<^verbatim>\<open>update_profile_post_count\<close>.\<close>

definition insert_post :: "caller \<Rightarrow> uuid \<Rightarrow> uuid \<Rightarrow> bool \<Rightarrow> db \<Rightarrow> db_error + db" where
  "insert_post c k creator private s =
     (let r = \<lparr>po_id = k, creator_id = creator, likes_count = Some 0,
               comments_count = Some 0, shares_count = Some 0, saves_count = Some 0,
               engagement_score = Some 0, is_private = Some private\<rparr>
      in if \<not> permits c posts_insert_policy r then Inl InsufficientPrivilege
         else if post_of s k \<noteq> None then Inl UniqueViolation
         else if profile_of s creator = None then Inl ForeignKeyViolation
         else update_post_count c INSERT r (s\<lparr>posts := posts s @ [r]\<rparr>))"

text \<open>\<^verbatim>\<open>INSERT INTO post_likes (post_id, user_id)\<close>, as the feed page issues it, then
  \<^verbatim>\<open>update_post_engagement_after_like\<close>.\<close>

definition insert_like :: "caller \<Rightarrow> post_likes_row \<Rightarrow> db \<Rightarrow> db_error + db" where
  "insert_like c r s =
     (if \<not> permits c post_likes_insert_policy r then Inl InsufficientPrivilege
      else if list_ex (\<lambda>x. pl_post_id x = pl_post_id r \<and> pl_user_id x = pl_user_id r) (post_likes s)
        then Inl UniqueViolation
      else if post_of s (pl_post_id r) = None \<or> profile_of s (pl_user_id r) = None
        then Inl ForeignKeyViolation
      else update_engagement_score c INSERT (pl_post_id r) (s\<lparr>post_likes := post_likes s @ [r]\<rparr>))"

text \<open>\<^verbatim>\<open>DELETE FROM post_likes WHERE post_id = k AND user_id = u\<close>, as the feed page issues it.\<close>

definition delete_like :: "caller \<Rightarrow> uuid \<Rightarrow> uuid \<Rightarrow> db \<Rightarrow> db_error + db" where
  "delete_like c k u s =
     (let hit = (\<lambda>x. pl_post_id x = k \<and> pl_user_id x = u \<and> permits c post_likes_delete_policy x)
      in for_each_row (\<lambda>x. update_engagement_score c DELETE (pl_post_id x)) (filter hit (post_likes s))
           (s\<lparr>post_likes := filter (\<lambda>x. \<not> hit x) (post_likes s)\<rparr>))"

text \<open>\<^verbatim>\<open>INSERT INTO comments (id, post_id, user_id, content, parent_id)\<close>, then
  \<^verbatim>\<open>update_post_engagement_after_comment\<close>.\<close>

definition insert_comment :: "caller \<Rightarrow> comments_row \<Rightarrow> db \<Rightarrow> db_error + db" where
  "insert_comment c r s =
     (if \<not> permits c comments_insert_policy r then Inl InsufficientPrivilege
      else if list_ex (\<lambda>x. c_id x = c_id r) (comments s) then Inl UniqueViolation
      else if post_of s (c_post_id r) = None \<or> profile_of s (c_user_id r) = None
              \<or> (case c_parent_id r of None \<Rightarrow> False
                  | Some q \<Rightarrow> \<not> list_ex (\<lambda>x. c_id x = q) (comments s))
        then Inl ForeignKeyViolation
      else update_engagement_score c INSERT (c_post_id r) (s\<lparr>comments := comments s @ [r]\<rparr>))"

text \<open>
  The comments that go with a set of deleted comments, through
  \<^verbatim>\<open>parent_id ... ON DELETE CASCADE\<close>: each round adds the replies of what is already
  doomed; as many rounds as the table has rows reach every descendant. The cascade is not
  subject to the policies: replies of other users go as well.
\<close>

fun cascade_comments :: "nat \<Rightarrow> comments_row list \<Rightarrow> uuid list \<Rightarrow> uuid list" where
  "cascade_comments 0 cs ids = ids"
| "cascade_comments (Suc n) cs ids =
     cascade_comments n cs
       (ids @ map c_id (filter (\<lambda>c. c_id c \<notin> set ids
                                  \<and> (case c_parent_id c of None \<Rightarrow> False | Some q \<Rightarrow> q \<in> set ids)) cs))"

text \<open>\<^verbatim>\<open>DELETE FROM comments WHERE id = k\<close>: the comment, if the session may delete it, and
  its replies go, and the engagement trigger runs for every deleted row.\<close>

definition delete_comment :: "caller \<Rightarrow> uuid \<Rightarrow> db \<Rightarrow> db_error + db" where
  "delete_comment c k s =
     (if \<not> list_ex (\<lambda>x. c_id x = k \<and> permits c comments_delete_policy x) (comments s) then Inr s
      else (let doomed = cascade_comments (length (comments s)) (comments s) [k]
            in for_each_row (\<lambda>x. update_engagement_score c DELETE (c_post_id x))
                 (filter (\<lambda>x. c_id x \<in> set doomed) (comments s))
                 (s\<lparr>comments := filter (\<lambda>x. c_id x \<notin> set doomed) (comments s)\<rparr>)))"

text \<open>
  \<^verbatim>\<open>DELETE FROM posts WHERE id = k\<close>: if the session may delete the post, the likes and
  comments of the post go with it (\<^verbatim>\<open>post_id ... ON DELETE CASCADE\<close>), the comments
  with their replies; the engagement trigger runs for every deleted like and comment, the
  post-count trigger for the post.
\<close>

definition delete_post :: "caller \<Rightarrow> uuid \<Rightarrow> db \<Rightarrow> db_error + db" where
  "delete_post c k s =
     (case post_of s k of
        None \<Rightarrow> Inr s
      | Some p \<Rightarrow>
          if \<not> (permits c posts_delete_policy p \<and> permits c posts_select_policy p) then Inr s
          else
          (let likes = filter (\<lambda>x. pl_post_id x = k) (post_likes s);
               doomed = cascade_comments (length (comments s)) (comments s)
                          (map c_id (filter (\<lambda>x. c_post_id x = k) (comments s)));
               s1 = s\<lparr>posts := filter (\<lambda>x. po_id x \<noteq> k) (posts s),
                      post_likes := filter (\<lambda>x. pl_post_id x \<noteq> k) (post_likes s),
                      comments := filter (\<lambda>x. c_id x \<notin> set doomed) (comments s)\<rparr>
           in and_then
                (for_each_row (\<lambda>x. update_engagement_score c DELETE (pl_post_id x)) likes s1)
                (\<lambda>s2. and_then
                   (for_each_row (\<lambda>x. update_engagement_score c DELETE (c_post_id x))
                      (filter (\<lambda>x. c_id x \<in> set doomed) (comments s)) s2)
                   (update_post_count c DELETE p))))"

subsection \<open>Sequences of statements\<close>

datatype statement =
    Signup auth_users_row
  | InsertFollow follows_row
  | DeleteFollow uuid uuid
  | InsertPost uuid uuid bool
  | DeletePost uuid
  | InsertLike post_likes_row
  | DeleteLike uuid uuid
  | InsertComment comments_row
  | DeleteComment uuid

text \<open>A statement run by a session. Account creation does not depend on the session.\<close>

fun exec :: "caller \<Rightarrow> statement \<Rightarrow> db \<Rightarrow> db_error + db" where
  "exec c (Signup new) s = signup new s"
| "exec c (InsertFollow r) s = insert_follow c r s"
| "exec c (DeleteFollow a b) s = delete_follow c a b s"
| "exec c (InsertPost k creator private) s = insert_post c k creator private s"
| "exec c (DeletePost k) s = delete_post c k s"
| "exec c (InsertLike r) s = insert_like c r s"
| "exec c (DeleteLike k u) s = delete_like c k u s"
| "exec c (InsertComment r) s = insert_comment c r s"
| "exec c (DeleteComment k) s = delete_comment c k s"

text \<open>A rejected statement leaves the database as it was; the next one runs on that.\<close>

fun run :: "(caller \<times> statement) list \<Rightarrow> db \<Rightarrow> db" where
  "run [] s = s"
| "run ((c, st) # sts) s = run sts (case exec c st s of Inl e \<Rightarrow> s | Inr s' \<Rightarrow> s')"

subsection \<open>Derived quantities\<close>

text \<open>The like rows and the comment rows of post \<open>k\<close>.\<close>

definition likes_of :: "db \<Rightarrow> uuid \<Rightarrow> nat" where
  "likes_of s k = length (filter (\<lambda>x. pl_post_id x = k) (post_likes s))"

definition comments_of :: "db \<Rightarrow> uuid \<Rightarrow> nat" where
  "comments_of s k = length (filter (\<lambda>x. c_post_id x = k) (comments s))"

text \<open>The weighted sum over the live like and comment rows of a post.\<close>

definition live_weighted :: "db \<Rightarrow> posts_row \<Rightarrow> rat" where
  "live_weighted s p =
     of_nat (likes_of s (po_id p)) * 1 + of_nat (comments_of s (po_id p)) * 3
       + of_int (coalesce0 (shares_count p)) * 5 + of_int (coalesce0 (saves_count p)) * 10"

text \<open>The four counter columns stored on the row of post \<open>k\<close>.\<close>

definition stored_counts ::
    "db \<Rightarrow> uuid \<Rightarrow> (int option \<times> int option \<times> int option \<times> int option) option" where
  "stored_counts s k =
     map_option (\<lambda>p. (likes_count p, comments_count p, shares_count p, saves_count p)) (post_of s k)"

text \<open>The counter columns and the score of every post are at their defaults.\<close>

definition counts_at_default :: "db \<Rightarrow> bool" where
  "counts_at_default s =
     list_all (\<lambda>p. likes_count p = Some 0 \<and> comments_count p = Some 0
                  \<and> shares_count p = Some 0 \<and> saves_count p = Some 0
                  \<and> engagement_score p = Some 0) (posts s)"

text \<open>The rows a counter column of profile \<open>u\<close> counts.\<close>

fun rows_of :: "counter_column \<Rightarrow> db \<Rightarrow> uuid \<Rightarrow> nat" where
  "rows_of Followers_count s u = length (filter (\<lambda>f. following_id f = u) (follows s))"
| "rows_of Following_count s u = length (filter (\<lambda>f. follower_id f = u) (follows s))"
| "rows_of Posts_count s u = length (filter (\<lambda>x. creator_id x = u) (posts s))"

text \<open>User \<open>u\<close> has a row in conversation \<open>conv\<close> with \<^verbatim>\<open>left_at\<close> NULL.\<close>

definition current_participant :: "conversation_participants_row list \<Rightarrow> uuid \<Rightarrow> uuid \<Rightarrow> bool" where
  "current_participant parts conv u =
     list_ex (\<lambda>p. cp_conversation_id p = conv \<and> cp_user_id p = u \<and> cp_left_at p = None) parts"

subsection \<open>Purchases\<close>

definition pack_of :: "db \<Rightarrow> uuid \<Rightarrow> sticker_packs_row option" where
  "pack_of s k = find (\<lambda>p. sp_id p = k) (sticker_packs s)"

text \<open>
  \<^verbatim>\<open>INSERT INTO user_purchases (user_id, pack_id, amount, payment_id)\<close>. The policy
  \<^verbatim>\<open>"System can insert purchases" ... WITH CHECK (TRUE)\<close> lets every caller insert; the
  two foreign keys are the only constraints, and the table has no trigger.
\<close>

definition insert_purchase :: "user_purchases_row \<Rightarrow> db \<Rightarrow> db_error + db" where
  "insert_purchase r s =
     (if profile_of s (up_user_id r) = None \<or> pack_of s (up_pack_id r) = None
        then Inl ForeignKeyViolation
      else and_then (decimal_10_2 (up_amount r))
             (\<lambda>a. Inr (s\<lparr>user_purchases := user_purchases s @ [r\<lparr>up_amount := a\<rparr>]\<rparr>)))"

text \<open>The rows of \<^verbatim>\<open>user_purchases\<close> for a (user, pack) pair.\<close>

definition purchases_of :: "db \<Rightarrow> uuid \<Rightarrow> uuid \<Rightarrow> user_purchases_row list" where
  "purchases_of s u k = filter (\<lambda>r. up_user_id r = u \<and> up_pack_id r = k) (user_purchases s)"

subsection \<open>The pack creation page\<close>

text \<open>\<^verbatim>\<open>String.prototype.trim\<close> on ASCII text, and the characters it removes.\<close>

definition is_space :: "char \<Rightarrow> bool" where
  "is_space c = (of_char c \<in> {9, 10, 11, 12, 13, 32 :: nat})"

definition trim :: "string \<Rightarrow> string" where
  "trim s = rev (dropWhile is_space (rev (dropWhile is_space s)))"

text \<open>
  \<^verbatim>\<open>parseFloat\<close> on a decimal literal: leading white space, an optional sign, digits with
  an optional fraction, an optional exponent; what follows is ignored. \<open>None\<close> is NaN (no
  digit where the number should start). The value is the exact rational, where JavaScript
  rounds to a double; the literal \<^verbatim>\<open>Infinity\<close>, which a number input cannot hold, is read
  as NaN.
\<close>

definition is_digit :: "char \<Rightarrow> bool" where
  "is_digit c = (48 \<le> (of_char c :: nat) \<and> (of_char c :: nat) \<le> 57)"

definition digits_val :: "string \<Rightarrow> nat" where
  "digits_val ds = foldl (\<lambda>a c. 10 * a + (of_char c - 48)) 0 ds"

definition exponent_of :: "string \<Rightarrow> int" where
  "exponent_of s =
     (case s of
        [] \<Rightarrow> 0
      | c # r \<Rightarrow>
          if c = CHR ''e'' \<or> c = CHR ''E'' then
            (case r of
               [] \<Rightarrow> 0
             | d # r' \<Rightarrow>
                 if d = CHR ''-'' then - int (digits_val (takeWhile is_digit r'))
                 else if d = CHR ''+'' then int (digits_val (takeWhile is_digit r'))
                 else int (digits_val (takeWhile is_digit r)))
          else 0)"

definition parseFloat :: "string \<Rightarrow> rat option" where
  "parseFloat s =
     (let s1 = dropWhile is_space s;
          neg = (case s1 of [] \<Rightarrow> False | c # _ \<Rightarrow> c = CHR ''-'');
          s2 = (case s1 of [] \<Rightarrow> [] | c # r \<Rightarrow> if c = CHR ''-'' \<or> c = CHR ''+'' then r else s1);
          ip = takeWhile is_digit s2;
          r1 = dropWhile is_digit s2;
          dot = (case r1 of [] \<Rightarrow> False | c # _ \<Rightarrow> c = CHR ''.'');
          fp = (if dot then takeWhile is_digit (tl r1) else []);
          r2 = (if dot then dropWhile is_digit (tl r1) else r1)
      in if ip = [] \<and> fp = [] then None
         else (let mant = of_nat (digits_val ip) + of_nat (digits_val fp) / 10 ^ length fp;
                   v = mant * 10 powi exponent_of r2
               in Some (if neg then - v else v)))"

text \<open>\<^verbatim>\<open>parseFloat(price) || 0\<close>: NaN and zero are falsy.\<close>

definition or_zero :: "rat option \<Rightarrow> rat" where
  "or_zero v = (case v of None \<Rightarrow> 0 | Some x \<Rightarrow> x)"

text \<open>
  \<^verbatim>\<open>INSERT INTO sticker_packs (creator_id, name, description, cover_url, price, is_public,
  is_approved)\<close> with a fresh \<^verbatim>\<open>id\<close>; \<^verbatim>\<open>price\<close> is stored as \<^verbatim>\<open>DECIMAL(10,2)\<close>.
  The page sends \<^verbatim>\<open>creator_id: user.id\<close> in the session of that user, which
  \<^verbatim>\<open>"Users can create sticker packs" ... WITH CHECK (auth.uid() = creator_id)\<close> lets
  through.
\<close>

definition insert_sticker_pack :: "sticker_packs_row \<Rightarrow> db \<Rightarrow> db_error + db" where
  "insert_sticker_pack r s =
     (if pack_of s (sp_id r) \<noteq> None then Inl UniqueViolation
      else if profile_of s (sp_creator_id r) = None then Inl ForeignKeyViolation
      else and_then (decimal_10_2 (sp_price r))
             (\<lambda>p. Inr (s\<lparr>sticker_packs := sticker_packs s @ [r\<lparr>sp_price := p\<rparr>]\<rparr>)))"

text \<open>
  The form of the creation page (the description and the cover image are left out), and
  what \<^verbatim>\<open>handleSubmit\<close> does up to the insert of the pack:
  \<^verbatim>\<open>price: parseFloat(price) || 0, is_public: isPublic,
  is_approved: price === "0" // Free packs auto-approved\<close>
  The uploads to storage and the rows of \<^verbatim>\<open>stickers\<close> that follow do not touch
  \<^verbatim>\<open>sticker_packs\<close>. \<open>new_id\<close> is the id the database generates for the pack.
\<close>

record pack_form =
  f_packName :: string
  f_price :: string
  f_isPublic :: bool
  f_stickers :: nat

datatype submit_outcome =
    LoginRequired
  | NameRequired
  | StickerRequired
  | ThreeStickersRequired
  | PackCreated db
  | CreateFailed db_error

definition handleSubmit :: "uuid option \<Rightarrow> pack_form \<Rightarrow> uuid \<Rightarrow> db \<Rightarrow> submit_outcome" where
  "handleSubmit user form new_id s =
     (case user of
        None \<Rightarrow> LoginRequired
      | Some uid \<Rightarrow>
          if trim (f_packName form) = [] then NameRequired
          else if f_stickers form = 0 then StickerRequired
          else if f_stickers form < 3 then ThreeStickersRequired
          else (case insert_sticker_pack
                       \<lparr>sp_id = new_id, sp_creator_id = uid, sp_name = trim (f_packName form),
                        sp_price = or_zero (parseFloat (f_price form)),
                        sp_is_public = f_isPublic form,
                        sp_is_approved = (f_price form = ''0''),
                        sp_sales_count = 0\<rparr> s of
                  Inl e \<Rightarrow> CreateFailed e
                | Inr s' \<Rightarrow> PackCreated s'))"

text \<open>
  The two SELECT policies of \<^verbatim>\<open>sticker_packs\<close>; permissive policies are OR-ed:
  \<^verbatim>\<open>USING (is_public = TRUE AND is_approved = TRUE)\<close> and
  \<^verbatim>\<open>USING (auth.uid() = creator_id)\<close>.
\<close>

definition sticker_packs_select_policy :: "uuid option \<Rightarrow> sticker_packs_row \<Rightarrow> bool" where
  "sticker_packs_select_policy auth_uid p =
     ((sp_is_public p \<and> sp_is_approved p) \<or> auth_uid = Some (sp_creator_id p))"

definition select_sticker_packs :: "uuid option \<Rightarrow> db \<Rightarrow> sticker_packs_row list" where
  "select_sticker_packs auth_uid s = filter (sticker_packs_select_policy auth_uid) (sticker_packs s)"

subsection \<open>The sticker store page\<close>

text \<open>\<^verbatim>\<open>CREATE POLICY "Users can view their purchases" ON user_purchases
  FOR SELECT USING (auth.uid() = user_id);\<close>\<close>

definition user_purchases_select_policy :: "uuid option \<Rightarrow> user_purchases_row \<Rightarrow> bool" where
  "user_purchases_select_policy auth_uid r = (auth_uid = Some (up_user_id r))"

text \<open>
  What the page gets from its data hook:
  \<^verbatim>\<open>const { publicPacks, myPacks, ownedPacks, isLoading } = useStickers();\<close>
\<close>

record stickers_data =
  publicPacks :: "sticker_packs_row list"
  myPacks :: "sticker_packs_row list"
  ownedPacks :: "sticker_packs_row list"

text \<open>
  Modelled from the spec: the data hook \<^verbatim>\<open>useStickers\<close> of the sticker pages is not
  among the sources. Its three lists are taken from the data model of the specification,
  as the session of the user reads them under the SELECT policies of the script:
  \<^verbatim>\<open>publicPacks\<close>, the packs that are public and approved; \<^verbatim>\<open>myPacks\<close>, the packs
  whose creator is the user; \<^verbatim>\<open>ownedPacks\<close>, the packs for which a purchase record of
  the user exists (a Purchase "grants durable ownership").
\<close>

definition useStickers :: "uuid option \<Rightarrow> db \<Rightarrow> stickers_data" where
  "useStickers user s =
     \<lparr>publicPacks = filter (\<lambda>p. sp_is_public p \<and> sp_is_approved p) (select_sticker_packs user s),
      myPacks = filter (\<lambda>p. Some (sp_creator_id p) = user) (select_sticker_packs user s),
      ownedPacks =
        filter (\<lambda>p. list_ex (\<lambda>r. up_pack_id r = sp_id p)
                      (filter (user_purchases_select_policy user) (user_purchases s)))
          (select_sticker_packs user s)\<rparr>"

text \<open>
  A pack as the store page holds it: the row, and \<^verbatim>\<open>is_owned\<close>, which the page computes
  from the lists of the hook:
  \<^verbatim>\<open>const ownedPackIds = new Set(ownedPacks.map(p => p.id));
  const myPackIds = new Set(myPacks.map(p => p.id));
  return publicPacks.map(pack => ({ ...pack,
    is_owned: ownedPackIds.has(pack.id) || myPackIds.has(pack.id) }));\<close>
\<close>

record store_pack =
  st_id :: uuid
  st_price :: rat
  st_is_owned :: bool

definition is_owned :: "uuid list \<Rightarrow> uuid list \<Rightarrow> uuid \<Rightarrow> bool" where
  "is_owned ownedPackIds myPackIds k = (k \<in> set ownedPackIds \<or> k \<in> set myPackIds)"

definition allPacks :: "stickers_data \<Rightarrow> store_pack list" where
  "allPacks d =
     (let ownedPackIds = map sp_id (ownedPacks d);
          myPackIds = map sp_id (myPacks d)
      in map (\<lambda>pack. \<lparr>st_id = sp_id pack, st_price = sp_price pack,
                       st_is_owned = is_owned ownedPackIds myPackIds (sp_id pack)\<rparr>)
           (publicPacks d))"

text \<open>The entry of pack \<open>k\<close> on the store page of a user, if the page lists the pack.\<close>

definition store_entry :: "uuid option \<Rightarrow> db \<Rightarrow> uuid \<Rightarrow> store_pack option" where
  "store_entry user s k = find (\<lambda>e. st_id e = k) (allPacks (useStickers user s))"

text \<open>
  What \<^verbatim>\<open>handlePurchase\<close> does: send the visitor to the login page, tell the user the
  pack is owned already, add the free pack (on success the page reloads), report that
  adding failed, or start the checkout by posting \<^verbatim>\<open>{pack_id, user_id}\<close> to
  \<^verbatim>\<open>/functions/v1/sticker-checkout\<close>. Only the free branch writes to the database.
\<close>

datatype purchase_outcome =
    NavigateToAuth
  | AlreadyOwned
  | PackAdded db
  | ClaimFailed db_error
  | CheckoutRequested uuid uuid

definition handlePurchase :: "uuid option \<Rightarrow> store_pack \<Rightarrow> db \<Rightarrow> purchase_outcome" where
  "handlePurchase user pack s =
     (case user of
        None \<Rightarrow> NavigateToAuth
      | Some uid \<Rightarrow>
          if st_is_owned pack then AlreadyOwned
          else if st_price pack = 0 then
            (case insert_purchase \<lparr>up_user_id = uid, up_pack_id = st_id pack, up_amount = 0,
                                    up_payment_id = Some ''free_download''\<rparr> s of
               Inl e \<Rightarrow> ClaimFailed e
             | Inr s' \<Rightarrow> PackAdded s')
          else CheckoutRequested (st_id pack) uid)"

text \<open>The database after \<^verbatim>\<open>handlePurchase\<close>: only a successful free claim changes it.\<close>

definition db_after :: "purchase_outcome \<Rightarrow> db \<Rightarrow> db" where
  "db_after out s = (case out of PackAdded s' \<Rightarrow> s' | _ \<Rightarrow> s)"

subsection \<open>Storage\<close>

text \<open>
  The files of the application are rows of \<^verbatim>\<open>storage.objects\<close>, each in a bucket:
  \<^verbatim>\<open>INSERT INTO storage.buckets (id, name, public) VALUES ('avatars', 'avatars', TRUE),
    ('banners', 'banners', TRUE), ('posts', 'posts', TRUE), ('void', 'void', TRUE),
    ('stickers', 'stickers', TRUE), ('audio', 'audio', TRUE)\<close>.
  The creation page uploads the images of a pack to the bucket \<^verbatim>\<open>stickers\<close> under
  \<^verbatim>\<open>${user.id}/${packData.id}/${Date.now()}-${sticker.file.name}\<close>.
\<close>

record storage_objects_row =
  so_bucket_id :: string
  so_name :: string

text \<open>
  The six SELECT policies on \<^verbatim>\<open>storage.objects\<close>, OR-ed:
  \<^verbatim>\<open>"Anyone can view avatars" FOR SELECT USING (bucket_id = 'avatars')\<close>, and the same
  for \<^verbatim>\<open>banners\<close>, \<^verbatim>\<open>posts\<close>, \<^verbatim>\<open>void\<close>, \<^verbatim>\<open>stickers\<close>
  (\<^verbatim>\<open>"Anyone can view stickers"\<close>) and \<^verbatim>\<open>audio\<close>.
\<close>

definition storage_objects_select_policy :: "uuid option \<Rightarrow> storage_objects_row \<Rightarrow> bool" where
  "storage_objects_select_policy auth_uid obj =
     (so_bucket_id obj = ''avatars'' \<or> so_bucket_id obj = ''banners''
      \<or> so_bucket_id obj = ''posts'' \<or> so_bucket_id obj = ''void''
      \<or> so_bucket_id obj = ''stickers'' \<or> so_bucket_id obj = ''audio'')"

subsection \<open>Example states\<close>

text \<open>Two signed-up users and nothing else; then user 2 follows user 1.\<close>

definition two_users :: db where
  "two_users =
     run [(Client None, Signup \<lparr>au_id = 1, au_display_name = Some ''Ana'', au_username = Some ''ana''\<rparr>),
          (Client None, Signup \<lparr>au_id = 2, au_display_name = Some ''Bia'', au_username = Some ''bia''\<rparr>)]
       empty_db"

definition followed :: db where
  "followed = run [(Client (Some 2), InsertFollow \<lparr>follower_id = 2, following_id = 1\<rparr>)] two_users"

text \<open>A user with one post; the same after the user liked the post.\<close>

definition one_post :: db where
  "one_post =
     run [(Client None, Signup \<lparr>au_id = 1, au_display_name = Some ''Ana'', au_username = Some ''ana''\<rparr>),
          (Client (Some 1), InsertPost 10 1 False)] empty_db"

definition liked_post :: db where
  "liked_post = run [(Client (Some 1), InsertLike \<lparr>pl_post_id = 10, pl_user_id = 1\<rparr>)] one_post"

text \<open>
  The user's post with counter columns that a statement of the owner of the tables has
  set, at odds with the rows; the same after the user liked the post.
\<close>

definition drifted_post :: db where
  "drifted_post =
     one_post\<lparr>posts := map (\<lambda>p. p\<lparr>likes_count := Some 2, comments_count := Some 1,
                                     shares_count := Some 1, saves_count := Some 1\<rparr>)
                           (posts one_post)\<rparr>"

definition drifted_liked :: db where
  "drifted_liked =
     run [(Client (Some 1), InsertLike \<lparr>pl_post_id = 10, pl_user_id = 1\<rparr>)] drifted_post"

text \<open>Two users and a post of user 1; the same after user 2 liked the post.\<close>

definition shared_post :: db where
  "shared_post = run [(Client (Some 1), InsertPost 10 1 False)] two_users"

definition liked_by_other :: db where
  "liked_by_other =
     run [(Client (Some 2), InsertLike \<lparr>pl_post_id = 10, pl_user_id = 2\<rparr>)] shared_post"

text \<open>The same two states with the counter columns of the post set as above.\<close>

definition drifted_shared :: db where
  "drifted_shared =
     shared_post\<lparr>posts := map (\<lambda>p. p\<lparr>likes_count := Some 2, comments_count := Some 1,
                                        shares_count := Some 1, saves_count := Some 1\<rparr>)
                              (posts shared_post)\<rparr>"

definition drifted_liked_by_other :: db where
  "drifted_liked_by_other =
     run [(Client (Some 2), InsertLike \<lparr>pl_post_id = 10, pl_user_id = 2\<rparr>)] drifted_shared"

text \<open>Two users; user 2 follows user 1, who posts; user 2 likes the post and comments on it.\<close>

definition busy_db :: db where
  "busy_db =
     run [(Client None, Signup \<lparr>au_id = 1, au_display_name = Some ''Ana'', au_username = Some ''ana''\<rparr>),
          (Client None, Signup \<lparr>au_id = 2, au_display_name = Some ''Bia'', au_username = Some ''bia''\<rparr>),
          (Client (Some 2), InsertFollow \<lparr>follower_id = 2, following_id = 1\<rparr>),
          (Client (Some 1), InsertPost 10 1 False),
          (Client (Some 2), InsertLike \<lparr>pl_post_id = 10, pl_user_id = 2\<rparr>),
          (Client (Some 2),
             InsertComment \<lparr>c_id = 100, c_post_id = 10, c_user_id = 2, c_parent_id = None\<rparr>)]
       empty_db"

text \<open>A conversation of users 1 and 2, of whom user 2 has left, with one message.\<close>

definition chat_parts :: "conversation_participants_row list" where
  "chat_parts =
     [\<lparr>cp_conversation_id = 7, cp_user_id = 1, cp_is_admin = False, cp_left_at = None\<rparr>,
      \<lparr>cp_conversation_id = 7, cp_user_id = 2, cp_is_admin = False, cp_left_at = Some 50\<rparr>]"

definition chat_msgs :: "messages_row list" where
  "chat_msgs = [\<lparr>m_id = 100, m_conversation_id = 7, m_sender_id = 1\<rparr>]"

text \<open>One signed-up user and nothing else; the creation form and the pack row of user 1.\<close>

definition one_user :: db where
  "one_user =
     run [(Client None, Signup \<lparr>au_id = 1, au_display_name = Some ''Ana'', au_username = Some ''ana''\<rparr>)]
       empty_db"

definition cats_form :: "string \<Rightarrow> pack_form" where
  "cats_form price = \<lparr>f_packName = ''Gatos'', f_price = price, f_isPublic = True, f_stickers = 3\<rparr>"

definition cats_pack :: "rat \<Rightarrow> bool \<Rightarrow> sticker_packs_row" where
  "cats_pack price approved =
     \<lparr>sp_id = 50, sp_creator_id = 1, sp_name = ''Gatos'', sp_price = price, sp_is_public = True,
      sp_is_approved = approved, sp_sales_count = 0\<rparr>"

text \<open>Two users, a free pack and a paid pack of user 1, both public and approved.\<close>

definition store_db :: db where
  "store_db =
     two_users
       \<lparr>sticker_packs :=
          [cats_pack 0 True,
           \<lparr>sp_id = 51, sp_creator_id = 1, sp_name = ''Ouro'', sp_price = 5 / 2, sp_is_public = True,
            sp_is_approved = True, sp_sales_count = 0\<rparr>]\<rparr>"

section \<open>Properties\<close>

subsection \<open>Rows, counters and the error monad\<close>

lemma and_then_Inl [simp]: "and_then (Inl e) f = Inl e"
  by (simp add: and_then_def)

lemma and_then_Inr [simp]: "and_then (Inr x) f = f x"
  by (simp add: and_then_def)

lemma and_then_eq_Inr: "and_then m f = Inr y \<longleftrightarrow> (\<exists>x. m = Inr x \<and> f x = Inr y)"
  by (cases m) simp_all

lemma find_replace_other:
  "key r' = k \<Longrightarrow> j \<noteq> k \<Longrightarrow>
     find (\<lambda>r. key r = j) (map (\<lambda>x. if key x = k then r' else x) rs) = find (\<lambda>r. key r = j) rs"
  by (induction rs) auto

lemma find_replace_same:
  "find (\<lambda>r. key r = k) rs = Some r \<Longrightarrow> key r' = k \<Longrightarrow>
     find (\<lambda>r. key r = k) (map (\<lambda>x. if key x = k then r' else x) rs) = Some r'"
  by (induction rs) (auto split: if_splits)

lemma find_replace:
  assumes "find (\<lambda>r. key r = k) rs = Some r" and "key r' = k"
  shows "find (\<lambda>r. key r = j) (map (\<lambda>x. if key x = k then r' else x) rs)
           = (if j = k then Some r' else find (\<lambda>r. key r = j) rs)"
  using find_replace_other [of key r' k j rs] find_replace_same [of key k rs r r'] assms by simp

lemma find_key: "find (\<lambda>r. key r = k) rs = Some r \<Longrightarrow> key r = k"
  by (induction rs) (auto split: if_splits)

lemma find_append:
  "find P (xs @ ys) = (case find P xs of None \<Rightarrow> find P ys | Some x \<Rightarrow> Some x)"
  by (induction xs) auto

lemma find_none: "\<not> list_ex P xs \<Longrightarrow> find P xs = None"
  by (simp add: find_None_iff list_ex_iff)

lemma p_id_set_col [simp]: "p_id (set_col col v p) = p_id p"
  by (cases col) simp_all

lemma get_col_set_col [simp]: "get_col c (set_col col v p) = (if c = col then v else get_col c p)"
  by (cases col; cases c) simp_all

lemma counter_of_profiles_cong:
  "profiles s' = profiles s \<Longrightarrow> counter_of col s' u = counter_of col s u"
  by (simp add: counter_of_def profile_of_def)

text \<open>Writing a counter of a profile that exists.\<close>

lemma counter_of_replace:
  assumes "profile_of s u = Some p"
  shows "counter_of c (s\<lparr>profiles := map (\<lambda>x. if p_id x = u then set_col col v p else x) (profiles s)\<rparr>) w
           = (if w = u \<and> c = col then v else counter_of c s w)"
proof -
  have k: "p_id (set_col col v p) = u"
    using assms find_key [of p_id u "profiles s" p] by (simp add: profile_of_def)
  show ?thesis
    using assms find_replace [of p_id u "profiles s" p "set_col col v p" w, OF _ k]
    by (auto simp: counter_of_def profile_of_def)
qed

lemma round_half_away_of_int: "round_half_away (of_int z) = z"
proof -
  have "\<lfloor>(of_int z :: rat) + 1 / 2\<rfloor> = z"
    by (simp add: floor_unique)
  moreover have "\<lfloor>- (of_int z :: rat) + 1 / 2\<rfloor> = - z"
    by (rule floor_unique) simp_all
  ultimately show ?thesis
    by (simp add: round_half_away_def)
qed

lemma decimal_10_2_of_int:
  "decimal_10_2 (of_int z) = (if \<bar>z\<bar> < 100000000 then Inr (of_int z) else Inl NumericValueOutOfRange)"
proof -
  have "round_half_away (of_int z * 100) = z * 100"
    using round_half_away_of_int [of "z * 100"] by simp
  then show ?thesis
    by (auto simp: decimal_10_2_def Let_def abs_mult)
qed

lemma decimal_10_2_zero [simp]: "decimal_10_2 0 = Inr 0"
  using decimal_10_2_of_int [of 0] by simp

lemma find_map_rows: "find P (map g xs) = map_option g (find (\<lambda>x. P (g x)) xs)"
  by (induction xs) auto

lemma find_in_set: "find P xs = Some x \<Longrightarrow> x \<in> set xs \<and> P x"
  by (induction xs) (auto split: if_splits)

lemma find_distinct:
  "distinct (map key xs) \<Longrightarrow> x \<in> set xs \<Longrightarrow> find (\<lambda>r. key r = key x) xs = Some x"
  by (induction xs) (auto simp: rev_image_eqI)

text \<open>An update that writes a table back as it is changes nothing.\<close>

lemma update_self [simp]: "s\<lparr>profiles := profiles s\<rparr> = s" "s\<lparr>posts := posts s\<rparr> = s"
  by simp_all

lemma update_by_id_list_all:
  assumes "update_by_id key sees k f rs = Inr rs'" and "list_all P rs"
    and "\<And>r r'. find (\<lambda>r. key r = k) rs = Some r \<Longrightarrow> sees r \<Longrightarrow> P r \<Longrightarrow> f r = Inr r' \<Longrightarrow> P r'"
  shows "list_all P rs'"
proof (cases "find (\<lambda>r. key r = k) rs")
  case None
  with assms(1,2) show ?thesis by (simp add: update_by_id_def)
next
  case (Some r)
  show ?thesis
  proof (cases "sees r")
    case False
    with assms(1,2) Some show ?thesis by (simp add: update_by_id_def)
  next
    case True
    have "r \<in> set rs"
      using Some by (auto simp: find_Some_iff)
    with assms(2) have "P r"
      by (simp add: list_all_iff)
    from assms(1) Some True obtain r' where r': "f r = Inr r'"
        "rs' = map (\<lambda>x. if key x = k then r' else x) rs"
      by (auto simp: update_by_id_def and_then_eq_Inr)
    have "P r'"
      using assms(3) [OF Some True \<open>P r\<close> r'(1)] .
    with assms(2) show ?thesis
      unfolding r'(2) by (induction rs) auto
  qed
qed

lemma for_each_row_invariant:
  assumes "\<And>r s s'. I s \<Longrightarrow> t r s = Inr s' \<Longrightarrow> I s'"
  shows "I s \<Longrightarrow> for_each_row t rs s = Inr s' \<Longrightarrow> I s'"
proof (induction rs arbitrary: s)
  case Nil
  then show ?case by simp
next
  case (Cons r rs)
  from Cons.prems(2) obtain s1 where s1: "t r s = Inr s1" "for_each_row t rs s1 = Inr s'"
    by (auto simp: and_then_eq_Inr)
  have "I s1"
    using assms Cons.prems(1) s1(1) by blast
  then show ?case
    using Cons.IH s1(2) by blast
qed

lemma update_by_id_other:
  assumes "update_by_id key sees k f rs = Inr rs'" and "j \<noteq> k"
    and "\<And>r r'. f r = Inr r' \<Longrightarrow> key r' = key r"
  shows "find (\<lambda>r. key r = j) rs' = find (\<lambda>r. key r = j) rs"
proof (cases "find (\<lambda>r. key r = k) rs")
  case None
  with assms(1) show ?thesis by (simp add: update_by_id_def)
next
  case (Some r)
  show ?thesis
  proof (cases "sees r")
    case False
    with assms(1) Some show ?thesis by (simp add: update_by_id_def)
  next
    case True
    from assms(1) Some True obtain r' where r': "f r = Inr r'"
        "rs' = map (\<lambda>x. if key x = k then r' else x) rs"
      by (auto simp: update_by_id_def and_then_eq_Inr)
    have "key r' = k"
      using assms(3) [OF r'(1)] find_key [OF Some] by simp
    then show ?thesis
      unfolding r'(2) using assms(2) by (rule find_replace_other)
  qed
qed

lemma and_then_Inr_id [simp]: "and_then m Inr = m"
  by (cases m) simp_all

lemma for_each_row_Nil [simp]: "for_each_row t [] = Inr"
  by (rule ext) simp

subsection \<open>Follow edges\<close>

text \<open>A client session does not write the counters of another user's profile.\<close>

lemma increment_counter_filtered:
  "auth_uid \<noteq> Some u \<Longrightarrow> increment_counter (Client auth_uid) col u s = Inr s"
proof (cases "find (\<lambda>r. p_id r = u) (profiles s)")
  case None
  then show ?thesis
    by (simp add: increment_counter_def update_by_id_def)
next
  case (Some p)
  assume "auth_uid \<noteq> Some u"
  moreover have "p_id p = u"
    using Some by (rule find_key)
  ultimately show ?thesis
    using Some
    by (simp add: increment_counter_def update_by_id_def permits_def profiles_update_policy_def)
qed

lemma decrement_counter_filtered:
  "auth_uid \<noteq> Some u \<Longrightarrow> decrement_counter (Client auth_uid) col u s = Inr s"
proof (cases "find (\<lambda>r. p_id r = u) (profiles s)")
  case None
  then show ?thesis
    by (simp add: decrement_counter_def update_by_id_def)
next
  case (Some p)
  assume "auth_uid \<noteq> Some u"
  moreover have "p_id p = u"
    using Some by (rule find_key)
  ultimately show ?thesis
    using Some
    by (simp add: decrement_counter_def update_by_id_def permits_def profiles_update_policy_def)
qed

text \<open>What an increment that was not rejected did, when the session may write the row.\<close>

lemma increment_counter_written:
  assumes ok: "increment_counter c col u s = Inr s'"
    and p: "profile_of s u = Some p" and may: "permits c profiles_update_policy p"
  shows "follows s' = follows s \<and> posts s' = posts s
       \<and> (\<forall>n. counter_of col s u = Some n \<longrightarrow> n + 1 \<le> 2147483647)
       \<and> (\<forall>col' w. counter_of col' s' w
           = (if w = u \<and> col' = col then map_option (\<lambda>n. n + 1) (counter_of col s u)
              else counter_of col' s w))"
proof -
  from ok p may obtain v where v: "int4_plus (get_col col p) 1 = Inr v"
    and s': "s' = s\<lparr>profiles := map (\<lambda>x. if p_id x = u then set_col col v p else x) (profiles s)\<rparr>"
    by (auto simp: increment_counter_def update_by_id_def profile_of_def and_then_eq_Inr)
  have "v = map_option (\<lambda>n. n + 1) (get_col col p)"
    using v by (auto simp: int4_plus_def split: option.splits if_splits)
  then have val: "v = map_option (\<lambda>n. n + 1) (counter_of col s u)"
    using p by (simp add: counter_of_def)
  have hi: "\<forall>n. counter_of col s u = Some n \<longrightarrow> n + 1 \<le> 2147483647"
    using v p by (auto simp: counter_of_def int4_plus_def split: if_splits)
  have cnt: "\<forall>col' w. counter_of col' s' w
           = (if w = u \<and> col' = col then map_option (\<lambda>n. n + 1) (counter_of col s u)
              else counter_of col' s w)"
    unfolding s' val by (simp only: counter_of_replace [OF p]) simp
  have "follows s' = follows s" "posts s' = posts s"
    by (simp_all add: s')
  with hi cnt show ?thesis
    by (intro conjI)
qed

text \<open>A decrement in a session that may write the row: it succeeds and clamps at 0.\<close>

lemma decrement_counter_written:
  assumes n: "counter_of col s u = Some n" and lo: "- 2147483648 \<le> n - 1" and hi: "n - 1 \<le> 2147483647"
    and may: "c = Owner \<or> c = Client (Some u)"
  shows "\<exists>s'. decrement_counter c col u s = Inr s'
           \<and> follows s' = follows s
           \<and> (\<forall>col' w. counter_of col' s' w
                 = (if w = u \<and> col' = col then Some (max 0 (n - 1)) else counter_of col' s w))"
proof -
  from n obtain p where p: "profile_of s u = Some p" and g: "get_col col p = Some n"
    by (auto simp: counter_of_def split: option.splits)
  have pid: "p_id p = u"
    using p find_key [of p_id u "profiles s" p] by (simp add: profile_of_def)
  have sees: "permits c profiles_update_policy p"
    using may pid by (auto simp: permits_def profiles_update_policy_def)
  let ?s' = "s\<lparr>profiles := map (\<lambda>x. if p_id x = u then set_col col (Some (max 0 (n - 1))) p else x)
                              (profiles s)\<rparr>"
  have run: "decrement_counter c col u s = Inr ?s'"
    using p g sees lo hi
    by (simp add: decrement_counter_def update_by_id_def profile_of_def int4_plus_def greatest0_def)
  have cnt: "\<forall>col' w. counter_of col' ?s' w
                 = (if w = u \<and> col' = col then Some (max 0 (n - 1)) else counter_of col' s w)"
    by (simp only: counter_of_replace [OF p]) simp
  have "follows ?s' = follows s"
    by simp
  with run cnt show ?thesis
    by (intro exI [of _ ?s'] conjI)
qed

text \<open>The insert of a follow edge by a client session, in full.\<close>

lemma insert_follow_by_client:
  assumes ok: "insert_follow (Client auth_uid) r s = Inr s'"
    and other: "following_id r \<noteq> follower_id r"
  shows "auth_uid = Some (follower_id r)
       \<and> \<not> list_ex (\<lambda>x. follower_id x = follower_id r \<and> following_id x = following_id r) (follows s)
       \<and> follows s' = follows s @ [r]
       \<and> (\<forall>n. counter_of Following_count s (follower_id r) = Some n \<longrightarrow> n + 1 \<le> 2147483647)
       \<and> (\<forall>col w. counter_of col s' w
             = (if w = follower_id r \<and> col = Following_count
                then map_option (\<lambda>n. n + 1) (counter_of Following_count s (follower_id r))
                else counter_of col s w))"
proof -
  let ?s0 = "s\<lparr>follows := follows s @ [r]\<rparr>"
  from ok have who: "auth_uid = Some (follower_id r)"
    and fresh: "\<not> list_ex (\<lambda>x. follower_id x = follower_id r \<and> following_id x = following_id r) (follows s)"
    and trig: "update_follow_counts (Client auth_uid) INSERT r ?s0 = Inr s'"
    by (auto simp: insert_follow_def permits_def follows_insert_policy_def split: if_splits)
  from ok obtain p where p: "profile_of s (follower_id r) = Some p"
    by (auto simp: insert_follow_def split: if_splits)
  then have p0: "profile_of ?s0 (follower_id r) = Some p"
    by (simp add: profile_of_def)
  have may: "permits (Client auth_uid) profiles_update_policy p"
    using who p find_key [of p_id "follower_id r" "profiles s" p]
    by (simp add: permits_def profiles_update_policy_def profile_of_def)
  from trig obtain s1 where
    a: "increment_counter (Client auth_uid) Following_count (follower_id r) ?s0 = Inr s1"
    and b: "increment_counter (Client auth_uid) Followers_count (following_id r) s1 = Inr s'"
    by (auto simp: update_follow_counts_def and_then_eq_Inr)
  have "auth_uid \<noteq> Some (following_id r)"
    using who other by simp
  from increment_counter_filtered [OF this] b have same: "s' = s1"
    by simp
  note w = increment_counter_written [OF a p0 may]
  have c0: "counter_of col ?s0 w = counter_of col s w" for col w
    by (rule counter_of_profiles_cong) simp
  have f: "follows s' = follows s @ [r]"
    using w same by simp
  have hi: "\<forall>n. counter_of Following_count s (follower_id r) = Some n \<longrightarrow> n + 1 \<le> 2147483647"
    using w c0 by simp
  have cnt: "\<forall>col w. counter_of col s' w
             = (if w = follower_id r \<and> col = Following_count
                then map_option (\<lambda>n. n + 1) (counter_of Following_count s (follower_id r))
                else counter_of col s w)"
    using w same c0 by simp
  from who fresh f hi cnt show ?thesis
    by (intro conjI)
qed

lemma unfollow_after_follow:
  assumes ok: "insert_follow (Client auth_uid) r s = Inr s'"
    and other: "following_id r \<noteq> follower_id r"
    and m: "counter_of Following_count s (follower_id r) = Some m" and pos: "0 \<le> m"
  shows "\<exists>s''. delete_follow (Client auth_uid) (follower_id r) (following_id r) s' = Inr s''
           \<and> follows s'' = follows s
           \<and> counter_of Following_count s'' (follower_id r) = Some m
           \<and> counter_of Followers_count s'' (following_id r)
               = counter_of Followers_count s (following_id r)
           \<and> delete_follow (Client auth_uid) (follower_id r) (following_id r) s'' = Inr s''"
proof -
  let ?a = "follower_id r" and ?b = "following_id r"
  let ?c = "Client auth_uid"
  let ?hit = "\<lambda>x. follower_id x = ?a \<and> following_id x = ?b \<and> permits ?c follows_delete_policy x"
  note ins = insert_follow_by_client [OF ok other]
  from ins have who: "auth_uid = Some ?a"
    and fresh: "\<not> list_ex (\<lambda>x. follower_id x = ?a \<and> following_id x = ?b) (follows s)"
    and f: "follows s' = follows s @ [r]"
    and hi: "m + 1 \<le> 2147483647"
    and cnt: "\<And>col w. counter_of col s' w
             = (if w = ?a \<and> col = Following_count then Some (m + 1) else counter_of col s w)"
    using m by simp_all
  have none: "filter ?hit (follows s) = []"
    using fresh by (auto simp: filter_empty_conv list_ex_iff)
  have keep: "filter (\<lambda>x. \<not> ?hit x) (follows s) = follows s"
    using fresh by (auto simp: filter_id_conv list_ex_iff)
  have hitr: "?hit r"
    using who by (simp add: permits_def follows_delete_policy_def)
  let ?s0 = "s'\<lparr>follows := follows s\<rparr>"
  have del: "delete_follow ?c ?a ?b s' = update_follow_counts ?c DELETE r ?s0"
    unfolding delete_follow_def Let_def f using none keep hitr by simp
  have n0: "counter_of Following_count ?s0 ?a = Some (m + 1)"
    using cnt [of Following_count ?a] counter_of_profiles_cong [of ?s0 s'] by simp
  have may: "?c = Owner \<or> ?c = Client (Some ?a)"
    using who by simp
  from decrement_counter_written [OF n0 _ _ may] pos hi
  have "\<exists>s1. decrement_counter ?c Following_count ?a ?s0 = Inr s1
           \<and> follows s1 = follows ?s0
           \<and> (\<forall>col' w. counter_of col' s1 w
                 = (if w = ?a \<and> col' = Following_count then Some (max 0 (m + 1 - 1))
                    else counter_of col' ?s0 w))"
    by simp
  then obtain s1 where s1: "decrement_counter ?c Following_count ?a ?s0 = Inr s1
           \<and> follows s1 = follows ?s0
           \<and> (\<forall>col' w. counter_of col' s1 w
                 = (if w = ?a \<and> col' = Following_count then Some (max 0 (m + 1 - 1))
                    else counter_of col' ?s0 w))" ..
  have filtered: "decrement_counter ?c Followers_count ?b s1 = Inr s1"
    using who other by (intro decrement_counter_filtered) simp
  have run1: "delete_follow ?c ?a ?b s' = Inr s1"
    unfolding del update_follow_counts_def using s1 filtered by simp
  have f1: "follows s1 = follows s"
    using s1 by simp
  have c0: "counter_of col ?s0 w = counter_of col s' w" for col w
    by (rule counter_of_profiles_cong) simp
  have ca: "counter_of Following_count s1 ?a = Some m"
    using s1 pos by simp
  have cb: "counter_of Followers_count s1 ?b = counter_of Followers_count s ?b"
    using s1 c0 cnt [of Followers_count ?b] by simp
  have again: "delete_follow ?c ?a ?b s1 = Inr s1"
    unfolding delete_follow_def Let_def f1 using none keep by (simp add: f1 [symmetric])
  from run1 f1 ca cb again show ?thesis
    by (intro exI [of _ s1] conjI)
qed

text \<open>
  C3. When a client session inserts the follow edge \<open>(a, b)\<close> with \<open>b \<noteq> a\<close> and the
  statement is not rejected, the session is that of \<open>a\<close>, the edge is there, and
  \<open>following_count\<close> of \<open>a\<close> is one more than before; \<open>followers_count\<close> of \<open>b\<close> is
  what it was, with one more edge to \<open>b\<close>: the second \<^verbatim>\<open>increment_counter\<close> of the
  trigger is a statement of \<open>a\<close>, who may not write the profile of \<open>b\<close>. Deleting the
  edge in the same session takes the edge away and returns \<open>following_count\<close> of \<open>a\<close> to
  its value before, when that was not negative; \<open>followers_count\<close> of \<open>b\<close> again does
  not move; deleting once more changes nothing. A decrement of a counter that is 0 leaves
  it at 0.
\<close>

theorem follow_by_client_counts_one_side:
  assumes ok: "insert_follow (Client auth_uid) r s = Inr s'"
    and other: "following_id r \<noteq> follower_id r"
  shows "auth_uid = Some (follower_id r)
       \<and> follows s' = follows s @ [r]
       \<and> rows_of Followers_count s' (following_id r) = rows_of Followers_count s (following_id r) + 1
       \<and> counter_of Followers_count s' (following_id r) = counter_of Followers_count s (following_id r)
       \<and> rows_of Following_count s' (follower_id r) = rows_of Following_count s (follower_id r) + 1
       \<and> counter_of Following_count s' (follower_id r)
           = map_option (\<lambda>n. n + 1) (counter_of Following_count s (follower_id r))
       \<and> (counter_of Following_count s (follower_id r) = Some m \<and> 0 \<le> m \<longrightarrow>
            (\<exists>s''. delete_follow (Client auth_uid) (follower_id r) (following_id r) s' = Inr s''
               \<and> follows s'' = follows s
               \<and> counter_of Following_count s'' (follower_id r) = Some m
               \<and> counter_of Followers_count s'' (following_id r)
                   = counter_of Followers_count s (following_id r)
               \<and> delete_follow (Client auth_uid) (follower_id r) (following_id r) s'' = Inr s''))
       \<and> (counter_of col t u = Some 0 \<longrightarrow>
            (\<exists>t'. decrement_counter (Client (Some u)) col u t = Inr t'
               \<and> counter_of col t' u = Some 0))"
proof -
  note ins = insert_follow_by_client [OF ok other]
  have f: "follows s' = follows s @ [r]"
    using ins by simp
  have undo: "\<exists>s''. delete_follow (Client auth_uid) (follower_id r) (following_id r) s' = Inr s''
               \<and> follows s'' = follows s
               \<and> counter_of Following_count s'' (follower_id r) = Some m
               \<and> counter_of Followers_count s'' (following_id r)
                   = counter_of Followers_count s (following_id r)
               \<and> delete_follow (Client auth_uid) (follower_id r) (following_id r) s'' = Inr s''"
    if "counter_of Following_count s (follower_id r) = Some m \<and> 0 \<le> m"
    using unfollow_after_follow [OF ok other, of m] that by simp
  have clamp: "\<exists>t'. decrement_counter (Client (Some u)) col u t = Inr t'
               \<and> counter_of col t' u = Some 0"
    if z: "counter_of col t u = Some 0"
  proof -
    from decrement_counter_written [OF z, of "Client (Some u)"]
    obtain t' where "decrement_counter (Client (Some u)) col u t = Inr t'
           \<and> follows t' = follows t
           \<and> (\<forall>col' w. counter_of col' t' w
                 = (if w = u \<and> col' = col then Some (max 0 (0 - 1)) else counter_of col' t w))"
      by auto
    then show ?thesis
      by (intro exI [of _ t']) simp
  qed
  from ins f undo clamp other show ?thesis
    by simp
qed

theorem follow_by_client_counts_one_side_witness:
  "insert_follow (Client (Some 2)) \<lparr>follower_id = 2, following_id = 1\<rparr> two_users = Inr followed
   \<and> follows followed = [\<lparr>follower_id = 2, following_id = 1\<rparr>]
   \<and> counter_of Followers_count two_users 1 = Some 0
   \<and> rows_of Followers_count followed 1 = 1
   \<and> counter_of Followers_count followed 1 = Some 0
   \<and> rows_of Following_count followed 2 = 1
   \<and> counter_of Following_count followed 2 = Some 1
   \<and> delete_follow (Client (Some 2)) 2 1 followed = Inr two_users
   \<and> delete_follow (Client (Some 2)) 2 1 two_users = Inr two_users
   \<and> decrement_counter (Client (Some 2)) Following_count 2 two_users = Inr two_users"
proof -
  have h1: "insert_follow (Client (Some 2)) \<lparr>follower_id = 2, following_id = 1\<rparr> two_users
              = Inr followed"
    by code_simp
  have h2: "following_id \<lparr>follower_id = 2, following_id = 1\<rparr>
              \<noteq> follower_id \<lparr>follower_id = 2 :: uuid, following_id = 1 :: uuid\<rparr>"
    by simp
  have h3: "follows two_users = []" "counter_of Followers_count two_users 1 = Some 0"
      "counter_of Following_count two_users 2 = Some 0"
      "delete_follow (Client (Some 2)) 2 1 followed = Inr two_users"
      "delete_follow (Client (Some 2)) 2 1 two_users = Inr two_users"
      "decrement_counter (Client (Some 2)) Following_count 2 two_users = Inr two_users"
    by code_simp+
  show ?thesis
    using follow_by_client_counts_one_side [OF h1 h2, of 0 Following_count two_users 2] h1 h3
    by simp
qed

text \<open>Run by the owner of the tables, the same insert raises both counters.\<close>

lemma follow_by_owner_counts_both:
  "(case insert_follow Owner \<lparr>follower_id = 2, following_id = 1\<rparr> two_users of
      Inl e \<Rightarrow> False
    | Inr s' \<Rightarrow> counter_of Followers_count s' 1 = Some 1 \<and> counter_of Following_count s' 2 = Some 1)"
  by code_simp

text \<open>A statement of a client session leaves the counters of every other profile alone.\<close>

lemma increment_counter_others:
  assumes "increment_counter (Client a) col u s = Inr s'" and "a \<noteq> Some w"
  shows "counter_of col' s' w = counter_of col' s w"
proof (cases "a = Some u")
  case False
  from increment_counter_filtered [OF this] assms(1) show ?thesis
    by simp
next
  case True
  with assms(2) have wu: "w \<noteq> u"
    by auto
  from assms(1) obtain ps where
    ps: "update_by_id p_id (permits (Client a) profiles_update_policy) u
           (\<lambda>p. and_then (int4_plus (get_col col p) 1) (\<lambda>v. Inr (set_col col v p)))
           (profiles s) = Inr ps"
    and s': "s' = s\<lparr>profiles := ps\<rparr>"
    by (auto simp: increment_counter_def and_then_eq_Inr)
  have "find (\<lambda>r. p_id r = w) ps = find (\<lambda>r. p_id r = w) (profiles s)"
    using ps wu by (rule update_by_id_other) (auto simp: and_then_eq_Inr)
  then show ?thesis
    by (simp add: s' counter_of_def profile_of_def)
qed

lemma decrement_counter_others:
  assumes "decrement_counter (Client a) col u s = Inr s'" and "a \<noteq> Some w"
  shows "counter_of col' s' w = counter_of col' s w"
proof (cases "a = Some u")
  case False
  from decrement_counter_filtered [OF this] assms(1) show ?thesis
    by simp
next
  case True
  with assms(2) have wu: "w \<noteq> u"
    by auto
  from assms(1) obtain ps where
    ps: "update_by_id p_id (permits (Client a) profiles_update_policy) u
           (\<lambda>p. and_then (int4_plus (get_col col p) (- 1)) (\<lambda>v. Inr (set_col col (greatest0 v) p)))
           (profiles s) = Inr ps"
    and s': "s' = s\<lparr>profiles := ps\<rparr>"
    by (auto simp: decrement_counter_def and_then_eq_Inr)
  have "find (\<lambda>r. p_id r = w) ps = find (\<lambda>r. p_id r = w) (profiles s)"
    using ps wu by (rule update_by_id_other) (auto simp: and_then_eq_Inr)
  then show ?thesis
    by (simp add: s' counter_of_def profile_of_def)
qed

lemma update_follow_counts_others:
  assumes "update_follow_counts (Client a) tg r s = Inr s'" and "a \<noteq> Some w"
  shows "counter_of col s' w = counter_of col s w"
proof (cases tg)
  case INSERT
  with assms(1) obtain s1 where
    "increment_counter (Client a) Following_count (follower_id r) s = Inr s1"
    "increment_counter (Client a) Followers_count (following_id r) s1 = Inr s'"
    by (auto simp: update_follow_counts_def and_then_eq_Inr)
  then show ?thesis
    using increment_counter_others [OF _ assms(2)] by metis
next
  case DELETE
  with assms(1) obtain s1 where
    "decrement_counter (Client a) Following_count (follower_id r) s = Inr s1"
    "decrement_counter (Client a) Followers_count (following_id r) s1 = Inr s'"
    by (auto simp: update_follow_counts_def and_then_eq_Inr)
  then show ?thesis
    using decrement_counter_others [OF _ assms(2)] by metis
next
  case UPDATE
  with assms(1) show ?thesis
    by (simp add: update_follow_counts_def)
qed

lemma update_post_count_others:
  assumes "update_post_count (Client a) tg r s = Inr s'" and "a \<noteq> Some w"
  shows "counter_of col s' w = counter_of col s w"
  using assms increment_counter_others [of a Posts_count "creator_id r" s s' w col]
    decrement_counter_others [of a Posts_count "creator_id r" s s' w col]
  by (cases tg) (simp_all add: update_post_count_def)

lemma update_engagement_score_profiles:
  "update_engagement_score c tg k s = Inr s' \<Longrightarrow> profiles s' = profiles s"
  by (auto simp: update_engagement_score_def and_then_eq_Inr split: if_splits)

lemma engagement_rows_profiles:
  assumes "for_each_row (\<lambda>x. update_engagement_score c tg (key x)) rs s = Inr s'"
  shows "profiles s' = profiles s"
  using for_each_row_invariant
    [of "\<lambda>t. profiles t = profiles s" "\<lambda>x. update_engagement_score c tg (key x)" s rs s']
    update_engagement_score_profiles assms by metis

lemma client_writes_own_counters_only:
  assumes ok: "exec (Client a) st s = Inr s'" and other: "a \<noteq> Some w"
    and ex: "profile_of s w \<noteq> None"
  shows "counter_of col s' w = counter_of col s w"
proof (cases st)
  case (Signup new)
  with ok have "profiles s' = profiles s @
                    [\<lparr>p_id = au_id new, p_username = au_username new,
                      p_display_name = au_display_name new,
                      followers_count = Some 0, following_count = Some 0, posts_count = Some 0\<rparr>]"
    by (auto simp: signup_def handle_new_user_def split: if_splits)
  then have "profile_of s' w = profile_of s w"
    using ex by (auto simp: profile_of_def find_append)
  then show ?thesis
    by (simp add: counter_of_def)
next
  case (InsertFollow r)
  with ok have "update_follow_counts (Client a) INSERT r (s\<lparr>follows := follows s @ [r]\<rparr>) = Inr s'"
    by (auto simp: insert_follow_def split: if_splits)
  from update_follow_counts_others [OF this other, of col] show ?thesis
    by (simp add: counter_of_def profile_of_def)
next
  case (DeleteFollow x y)
  define hit where "hit = (\<lambda>r. follower_id r = x \<and> following_id r = y
                               \<and> permits (Client a) follows_delete_policy r)"
  define s0 where "s0 = s\<lparr>follows := filter (\<lambda>r. \<not> hit r) (follows s)\<rparr>"
  from ok DeleteFollow have run: "for_each_row (update_follow_counts (Client a) DELETE)
           (filter hit (follows s)) s0 = Inr s'"
    by (simp add: delete_follow_def Let_def hit_def s0_def)
  have "counter_of col s' w = counter_of col s0 w"
    using for_each_row_invariant
      [of "\<lambda>t. counter_of col t w = counter_of col s0 w" "update_follow_counts (Client a) DELETE"
          s0 "filter hit (follows s)" s']
      update_follow_counts_others [OF _ other, of DELETE _ _ _ col] run by metis
  then show ?thesis
    by (simp add: s0_def counter_of_def profile_of_def)
next
  case (InsertPost k creator priv)
  define r where "r = \<lparr>po_id = k, creator_id = creator, likes_count = Some 0,
               comments_count = Some 0, shares_count = Some 0, saves_count = Some 0,
               engagement_score = Some 0, is_private = Some priv\<rparr>"
  from ok InsertPost have "update_post_count (Client a) INSERT r (s\<lparr>posts := posts s @ [r]\<rparr>) = Inr s'"
    by (auto simp: insert_post_def Let_def r_def split: if_splits)
  from update_post_count_others [OF this other, of col] show ?thesis
    by (simp add: counter_of_def profile_of_def)
next
  case (DeletePost k)
  show ?thesis
  proof (cases "post_of s k")
    case None
    with ok DeletePost show ?thesis by (simp add: delete_post_def)
  next
    case (Some p)
    show ?thesis
    proof (cases "permits (Client a) posts_delete_policy p \<and> permits (Client a) posts_select_policy p")
      case False
      with ok DeletePost Some show ?thesis by (auto simp: delete_post_def)
    next
      case True
      define doomed where "doomed = cascade_comments (length (comments s)) (comments s)
                          (map c_id (filter (\<lambda>x. c_post_id x = k) (comments s)))"
      define s1 where "s1 = s\<lparr>posts := filter (\<lambda>x. po_id x \<noteq> k) (posts s),
                      post_likes := filter (\<lambda>x. pl_post_id x \<noteq> k) (post_likes s),
                      comments := filter (\<lambda>x. c_id x \<notin> set doomed) (comments s)\<rparr>"
      from ok DeletePost Some True obtain s2 s3 where
        a: "for_each_row (\<lambda>x. update_engagement_score (Client a) DELETE (pl_post_id x))
              (filter (\<lambda>x. pl_post_id x = k) (post_likes s)) s1 = Inr s2"
        and b: "for_each_row (\<lambda>x. update_engagement_score (Client a) DELETE (c_post_id x))
              (filter (\<lambda>x. c_id x \<in> set doomed) (comments s)) s2 = Inr s3"
        and e: "update_post_count (Client a) DELETE p s3 = Inr s'"
        by (auto simp: delete_post_def Let_def and_then_eq_Inr doomed_def s1_def)
      have "profiles s3 = profiles s"
        using engagement_rows_profiles [OF a] engagement_rows_profiles [OF b] by (simp add: s1_def)
      then have "counter_of col s3 w = counter_of col s w"
        by (rule counter_of_profiles_cong)
      with update_post_count_others [OF e other, of col] show ?thesis
        by simp
    qed
  qed
next
  case (InsertLike r)
  with ok have "update_engagement_score (Client a) INSERT (pl_post_id r)
      (s\<lparr>post_likes := post_likes s @ [r]\<rparr>) = Inr s'"
    by (auto simp: insert_like_def split: if_splits)
  from update_engagement_score_profiles [OF this] show ?thesis
    by (simp add: counter_of_def profile_of_def)
next
  case (DeleteLike k u)
  define hit where "hit = (\<lambda>x. pl_post_id x = k \<and> pl_user_id x = u
                               \<and> permits (Client a) post_likes_delete_policy x)"
  from ok DeleteLike have "for_each_row (\<lambda>x. update_engagement_score (Client a) DELETE (pl_post_id x))
           (filter hit (post_likes s))
           (s\<lparr>post_likes := filter (\<lambda>x. \<not> hit x) (post_likes s)\<rparr>) = Inr s'"
    by (simp add: delete_like_def Let_def hit_def)
  from engagement_rows_profiles [OF this] show ?thesis
    by (simp add: counter_of_def profile_of_def)
next
  case (InsertComment r)
  with ok have "update_engagement_score (Client a) INSERT (c_post_id r)
      (s\<lparr>comments := comments s @ [r]\<rparr>) = Inr s'"
    by (auto simp: insert_comment_def split: if_splits)
  from update_engagement_score_profiles [OF this] show ?thesis
    by (simp add: counter_of_def profile_of_def)
next
  case (DeleteComment k)
  show ?thesis
  proof (cases "list_ex (\<lambda>x. c_id x = k \<and> permits (Client a) comments_delete_policy x) (comments s)")
    case False
    with ok DeleteComment show ?thesis by (simp add: delete_comment_def)
  next
    case True
    define doomed where "doomed = cascade_comments (length (comments s)) (comments s) [k]"
    have "for_each_row (\<lambda>x. update_engagement_score (Client a) DELETE (c_post_id x))
        (filter (\<lambda>x. c_id x \<in> set doomed) (comments s))
        (s\<lparr>comments := filter (\<lambda>x. c_id x \<notin> set doomed) (comments s)\<rparr>) = Inr s'"
      using ok DeleteComment True by (simp add: delete_comment_def Let_def doomed_def)
    from engagement_rows_profiles [OF this] show ?thesis
      by (simp add: counter_of_def profile_of_def)
  qed
qed

subsection \<open>Engagement score\<close>

text \<open>
  C1. The score after a like is not the weighted sum over the live rows. When user 1 likes
  the own fresh post, the trigger recomputes the score from the \<open>likes_count\<close> column,
  which nothing has written: one like row, weighted sum over live rows 1, score 0. When
  user 2 likes the post of user 1, the \<^verbatim>\<open>UPDATE posts\<close> of the trigger is a statement of
  user 2, who may not write the post: again one like row and score 0. With the stored
  columns at 2 likes, 1 comment, 1 share and 1 save, the like of user 1 sets the score to
  \<open>2 * 1 + 1 * 3 + 1 * 5 + 1 * 10 = 20\<close>, where the live rows give 16: the recompute does not
  heal the drift, it reads it; and the like of user 2 leaves the score of that post at 0.
\<close>

theorem engagement_score_not_live_counts:
  "exec (Client (Some 1)) (InsertLike \<lparr>pl_post_id = 10, pl_user_id = 1\<rparr>) one_post = Inr liked_post
   \<and> likes_of liked_post 10 = 1
   \<and> comments_of liked_post 10 = 0
   \<and> map_option engagement_score (post_of liked_post 10) = Some (Some 0)
   \<and> map_option (live_weighted liked_post) (post_of liked_post 10) = Some 1
   \<and> exec (Client (Some 2)) (InsertLike \<lparr>pl_post_id = 10, pl_user_id = 2\<rparr>) shared_post
       = Inr liked_by_other
   \<and> likes_of liked_by_other 10 = 1
   \<and> comments_of liked_by_other 10 = 0
   \<and> map_option engagement_score (post_of liked_by_other 10) = Some (Some 0)
   \<and> map_option (live_weighted liked_by_other) (post_of liked_by_other 10) = Some 1
   \<and> exec (Client (Some 1)) (InsertLike \<lparr>pl_post_id = 10, pl_user_id = 1\<rparr>) drifted_post
       = Inr drifted_liked
   \<and> likes_of drifted_liked 10 = 1
   \<and> comments_of drifted_liked 10 = 0
   \<and> stored_counts drifted_liked 10 = Some (Some 2, Some 1, Some 1, Some 1)
   \<and> map_option engagement_score (post_of drifted_liked 10) = Some (Some 20)
   \<and> map_option (live_weighted drifted_liked) (post_of drifted_liked 10) = Some 16
   \<and> exec (Client (Some 2)) (InsertLike \<lparr>pl_post_id = 10, pl_user_id = 2\<rparr>) drifted_shared
       = Inr drifted_liked_by_other
   \<and> likes_of drifted_liked_by_other 10 = 1
   \<and> stored_counts drifted_liked_by_other 10 = Some (Some 2, Some 1, Some 1, Some 1)
   \<and> map_option engagement_score (post_of drifted_liked_by_other 10) = Some (Some 0)
   \<and> map_option (live_weighted drifted_liked_by_other) (post_of drifted_liked_by_other 10) = Some 16"
  by code_simp

subsection \<open>Likes and the stored counters\<close>

text \<open>What the engagement trigger does to the posts table.\<close>

lemma update_engagement_score_posts:
  assumes "update_engagement_score c tg k s = Inr s'"
  shows "s' = s
       \<or> (\<exists>p sc. post_of s k = Some p
            \<and> s' = s\<lparr>posts := map (\<lambda>x. if po_id x = k then p\<lparr>engagement_score := sc\<rparr> else x) (posts s)\<rparr>)"
proof (cases "post_of s k")
  case None
  with assms show ?thesis
    by (auto simp: update_engagement_score_def update_by_id_def post_of_def split: if_splits)
next
  case (Some p)
  with assms show ?thesis
    by (auto simp: update_engagement_score_def update_by_id_def post_of_def and_then_eq_Inr
        split: if_splits)
qed

lemma update_engagement_score_post_likes:
  "update_engagement_score c tg k s = Inr s' \<Longrightarrow> post_likes s' = post_likes s"
  using update_engagement_score_posts [of c tg k s s'] by auto

lemma update_engagement_score_stored:
  assumes "update_engagement_score c tg k s = Inr s'"
  shows "stored_counts s' j = stored_counts s j"
  using update_engagement_score_posts [OF assms]
proof (elim disjE exE conjE)
  assume "s' = s"
  then show ?thesis by simp
next
  fix p sc
  assume p: "post_of s k = Some p"
    and s': "s' = s\<lparr>posts := map (\<lambda>x. if po_id x = k then p\<lparr>engagement_score := sc\<rparr> else x) (posts s)\<rparr>"
  have k: "po_id (p\<lparr>engagement_score := sc\<rparr>) = k"
    using p find_key [of po_id k "posts s" p] by (simp add: post_of_def)
  have "post_of s' j = (if j = k then Some (p\<lparr>engagement_score := sc\<rparr>) else post_of s j)"
    unfolding s' using find_replace [of po_id k "posts s" p _ j, OF _ k] p
    by (simp add: post_of_def)
  with p show ?thesis
    by (simp add: stored_counts_def)
qed

text \<open>
  C4. After a like by \<open>(user, post)\<close> went in, the same like again is rejected with a
  unique violation, so the table holds that like once; whichever session tries, it is
  rejected. The like raised the number of like rows of the post by one; the
  \<open>likes_count\<close> column of the post did not move: nothing in the script increments it.
\<close>

theorem duplicate_like_rejected_count_unchanged:
  assumes "insert_like c r s = Inr s'"
  shows "insert_like c r s' = Inl UniqueViolation
       \<and> isl (insert_like c' r s')
       \<and> likes_of s' (pl_post_id r) = likes_of s (pl_post_id r) + 1
       \<and> stored_counts s' (pl_post_id r) = stored_counts s (pl_post_id r)"
proof -
  from assms have may: "permits c post_likes_insert_policy r"
    and upd: "update_engagement_score c INSERT (pl_post_id r)
      (s\<lparr>post_likes := post_likes s @ [r]\<rparr>) = Inr s'"
    by (auto simp: insert_like_def split: if_splits)
  from update_engagement_score_post_likes [OF upd]
  have rows: "post_likes s' = post_likes s @ [r]"
    by simp
  then have dup: "list_ex (\<lambda>x. pl_post_id x = pl_post_id r \<and> pl_user_id x = pl_user_id r) (post_likes s')"
    by (simp add: list_ex_iff)
  have "insert_like c r s' = Inl UniqueViolation"
    using may dup by (simp add: insert_like_def)
  moreover have "isl (insert_like c' r s')"
    using dup by (simp add: insert_like_def)
  moreover have "likes_of s' (pl_post_id r) = likes_of s (pl_post_id r) + 1"
    by (simp add: likes_of_def rows)
  moreover have "stored_counts s' (pl_post_id r) = stored_counts s (pl_post_id r)"
    using update_engagement_score_stored [OF upd, of "pl_post_id r"]
    by (simp add: stored_counts_def post_of_def)
  ultimately show ?thesis by blast
qed

theorem duplicate_like_rejected_count_unchanged_witness:
  "insert_like (Client (Some 1)) \<lparr>pl_post_id = 10, pl_user_id = 1\<rparr> one_post = Inr liked_post
   \<and> insert_like (Client (Some 1)) \<lparr>pl_post_id = 10, pl_user_id = 1\<rparr> liked_post = Inl UniqueViolation
   \<and> isl (insert_like Owner \<lparr>pl_post_id = 10, pl_user_id = 1\<rparr> liked_post)
   \<and> likes_of one_post 10 = 0
   \<and> likes_of liked_post 10 = 1
   \<and> stored_counts one_post 10 = Some (Some 0, Some 0, Some 0, Some 0)
   \<and> stored_counts liked_post 10 = Some (Some 0, Some 0, Some 0, Some 0)"
proof -
  have h1: "insert_like (Client (Some 1)) \<lparr>pl_post_id = 10, pl_user_id = 1\<rparr> one_post = Inr liked_post"
    by code_simp
  have h2: "likes_of one_post 10 = 0"
    by code_simp
  have h3: "stored_counts one_post 10 = Some (Some 0, Some 0, Some 0, Some 0)"
    by code_simp
  show ?thesis
    using duplicate_like_rejected_count_unchanged [OF h1, of Owner] h1 h2 h3 by simp
qed

subsection \<open>Derived counters\<close>

text \<open>
  C2. After two signups, a follow of user 1 by user 2, a post of user 1, and a like and a
  comment of user 2 on it, each issued by the session of its user:
  \<open>likes_count\<close> and \<open>comments_count\<close> of the post are 0 with one like row and one
  comment row present, as no trigger of the script writes them; \<open>followers_count\<close> of
  user 1 is 0 with one follow edge to user 1, as the increment ran in the session of user 2,
  who may not write the profile of user 1. \<open>following_count\<close> of user 2 and
  \<open>posts_count\<close> of user 1, which the acting user's own session writes, are 1.
\<close>

theorem likes_and_comments_counters_not_maintained:
  "likes_of busy_db 10 = 1
   \<and> comments_of busy_db 10 = 1
   \<and> stored_counts busy_db 10 = Some (Some 0, Some 0, Some 0, Some 0)
   \<and> rows_of Followers_count busy_db 1 = 1
   \<and> counter_of Followers_count busy_db 1 = Some 0
   \<and> rows_of Following_count busy_db 2 = 1
   \<and> counter_of Following_count busy_db 2 = Some 1
   \<and> rows_of Posts_count busy_db 1 = 1
   \<and> counter_of Posts_count busy_db 1 = Some 1"
  by code_simp

text \<open>No statement writes the counter columns of a post.\<close>

lemma increment_counter_posts:
  "increment_counter c col u s = Inr s' \<Longrightarrow> posts s' = posts s"
  by (auto simp: increment_counter_def and_then_eq_Inr)

lemma decrement_counter_posts:
  "decrement_counter c col u s = Inr s' \<Longrightarrow> posts s' = posts s"
  by (auto simp: decrement_counter_def and_then_eq_Inr)

lemma update_follow_counts_posts:
  "update_follow_counts c tg r s = Inr s' \<Longrightarrow> posts s' = posts s"
  by (auto simp: update_follow_counts_def and_then_eq_Inr
      dest!: increment_counter_posts decrement_counter_posts split: if_splits)

lemma update_post_count_posts:
  "update_post_count c tg r s = Inr s' \<Longrightarrow> posts s' = posts s"
  by (auto simp: update_post_count_def dest: increment_counter_posts decrement_counter_posts
      split: if_splits)

lemma counts_at_default_cong: "posts s' = posts s \<Longrightarrow> counts_at_default s' = counts_at_default s"
  by (simp add: counts_at_default_def)

lemma weighted_counts_default:
  "likes_count p = Some 0 \<Longrightarrow> comments_count p = Some 0 \<Longrightarrow> shares_count p = Some 0
     \<Longrightarrow> saves_count p = Some 0 \<Longrightarrow> weighted_counts p = 0"
  by (simp add: weighted_counts_def coalesce0_def)

lemma update_engagement_score_default:
  assumes "counts_at_default s" and "update_engagement_score c tg k s = Inr s'"
  shows "counts_at_default s'"
proof (cases "tg = INSERT \<or> tg = DELETE")
  case False
  with assms show ?thesis by (simp add: update_engagement_score_def)
next
  case True
  let ?P = "\<lambda>p. likes_count p = Some 0 \<and> comments_count p = Some 0
                  \<and> shares_count p = Some 0 \<and> saves_count p = Some 0
                  \<and> engagement_score p = Some 0"
  from True assms(2) obtain ps where
    ps: "update_by_id po_id
           (\<lambda>p. permits c posts_update_policy p \<and> permits c posts_select_policy p) k
           (\<lambda>p. and_then (calculate_engagement_score c k s)
                   (\<lambda>score. Inr (p\<lparr>engagement_score := score\<rparr>)))
           (posts s) = Inr ps"
    and s': "s' = s\<lparr>posts := ps\<rparr>"
    by (auto simp: update_engagement_score_def and_then_eq_Inr)
  have "list_all ?P ps"
    using ps
  proof (rule update_by_id_list_all)
    show "list_all ?P (posts s)"
      using assms(1) by (simp add: counts_at_default_def)
  next
    fix r r'
    assume found: "find (\<lambda>r. po_id r = k) (posts s) = Some r"
      and sees: "permits c posts_update_policy r \<and> permits c posts_select_policy r"
      and r: "?P r"
      and upd: "and_then (calculate_engagement_score c k s)
             (\<lambda>score. Inr (r\<lparr>engagement_score := score\<rparr>)) = Inr r'"
    have "weighted_counts r = 0"
      using r by (simp add: weighted_counts_default)
    then have "calculate_engagement_score c k s = Inr (Some 0)"
      using found sees by (simp add: calculate_engagement_score_def post_of_def)
    with upd have "r' = r\<lparr>engagement_score := Some 0\<rparr>"
      by simp
    with r show "?P r'"
      by simp
  qed
  then show ?thesis
    by (simp add: s' counts_at_default_def)
qed

lemma engagement_rows_default:
  assumes "counts_at_default s"
    and "for_each_row (\<lambda>x. update_engagement_score c tg (key x)) rs s = Inr s'"
  shows "counts_at_default s'"
  using for_each_row_invariant
    [of counts_at_default "\<lambda>x. update_engagement_score c tg (key x)" s rs s']
    update_engagement_score_default assms by blast

lemma follow_rows_default:
  assumes "counts_at_default s"
    and "for_each_row (update_follow_counts c tg) rs s = Inr s'"
  shows "counts_at_default s'"
  using for_each_row_invariant [of counts_at_default "update_follow_counts c tg" s rs s']
    counts_at_default_cong [OF update_follow_counts_posts] assms by blast

lemma exec_counts_at_default:
  assumes d: "counts_at_default s" and ok: "exec c st s = Inr s'"
  shows "counts_at_default s'"
proof (cases st)
  case (Signup new)
  with ok have "posts s' = posts s"
    by (auto simp: signup_def handle_new_user_def split: if_splits)
  with d show ?thesis
    by (simp add: counts_at_default_def)
next
  case (InsertFollow r)
  with ok have "update_follow_counts c INSERT r (s\<lparr>follows := follows s @ [r]\<rparr>) = Inr s'"
    by (auto simp: insert_follow_def split: if_splits)
  from update_follow_counts_posts [OF this] d show ?thesis
    by (simp add: counts_at_default_def)
next
  case (DeleteFollow a b)
  define hit where "hit = (\<lambda>x. follower_id x = a \<and> following_id x = b
                               \<and> permits c follows_delete_policy x)"
  from ok DeleteFollow have "for_each_row (update_follow_counts c DELETE) (filter hit (follows s))
           (s\<lparr>follows := filter (\<lambda>x. \<not> hit x) (follows s)\<rparr>) = Inr s'"
    by (simp add: delete_follow_def Let_def hit_def)
  moreover have "counts_at_default (s\<lparr>follows := filter (\<lambda>x. \<not> hit x) (follows s)\<rparr>)"
    using d by (simp add: counts_at_default_def)
  ultimately show ?thesis
    using follow_rows_default by blast
next
  case (InsertPost k creator priv)
  define r where "r = \<lparr>po_id = k, creator_id = creator, likes_count = Some 0,
               comments_count = Some 0, shares_count = Some 0, saves_count = Some 0,
               engagement_score = Some 0, is_private = Some priv\<rparr>"
  from ok InsertPost have "update_post_count c INSERT r (s\<lparr>posts := posts s @ [r]\<rparr>) = Inr s'"
    by (auto simp: insert_post_def Let_def r_def split: if_splits)
  from update_post_count_posts [OF this] d show ?thesis
    by (simp add: counts_at_default_def r_def)
next
  case (DeletePost k)
  show ?thesis
  proof (cases "post_of s k")
    case None
    with ok DeletePost d show ?thesis by (simp add: delete_post_def)
  next
    case (Some p)
    show ?thesis
    proof (cases "permits c posts_delete_policy p \<and> permits c posts_select_policy p")
      case False
      with ok DeletePost Some d show ?thesis by (auto simp: delete_post_def)
    next
      case True
      define doomed where "doomed = cascade_comments (length (comments s)) (comments s)
                          (map c_id (filter (\<lambda>x. c_post_id x = k) (comments s)))"
      define s1 where "s1 = s\<lparr>posts := filter (\<lambda>x. po_id x \<noteq> k) (posts s),
                      post_likes := filter (\<lambda>x. pl_post_id x \<noteq> k) (post_likes s),
                      comments := filter (\<lambda>x. c_id x \<notin> set doomed) (comments s)\<rparr>"
      from ok DeletePost Some True obtain s2 s3 where
        a: "for_each_row (\<lambda>x. update_engagement_score c DELETE (pl_post_id x))
              (filter (\<lambda>x. pl_post_id x = k) (post_likes s)) s1 = Inr s2"
        and b: "for_each_row (\<lambda>x. update_engagement_score c DELETE (c_post_id x))
              (filter (\<lambda>x. c_id x \<in> set doomed) (comments s)) s2 = Inr s3"
        and e: "update_post_count c DELETE p s3 = Inr s'"
        by (auto simp: delete_post_def Let_def and_then_eq_Inr doomed_def s1_def)
      have "counts_at_default s1"
        using d by (simp add: counts_at_default_def s1_def list_all_iff)
      then have "counts_at_default s2"
        using a by (rule engagement_rows_default)
      then have "counts_at_default s3"
        using b by (rule engagement_rows_default)
      then show ?thesis
        using counts_at_default_cong [OF update_post_count_posts [OF e]] by simp
    qed
  qed
next
  case (InsertLike r)
  with ok have "update_engagement_score c INSERT (pl_post_id r)
      (s\<lparr>post_likes := post_likes s @ [r]\<rparr>) = Inr s'"
    by (auto simp: insert_like_def split: if_splits)
  moreover have "counts_at_default (s\<lparr>post_likes := post_likes s @ [r]\<rparr>)"
    using d by (simp add: counts_at_default_def)
  ultimately show ?thesis
    using update_engagement_score_default by blast
next
  case (DeleteLike k u)
  define hit where "hit = (\<lambda>x. pl_post_id x = k \<and> pl_user_id x = u
                               \<and> permits c post_likes_delete_policy x)"
  from ok DeleteLike have "for_each_row (\<lambda>x. update_engagement_score c DELETE (pl_post_id x))
           (filter hit (post_likes s))
           (s\<lparr>post_likes := filter (\<lambda>x. \<not> hit x) (post_likes s)\<rparr>) = Inr s'"
    by (simp add: delete_like_def Let_def hit_def)
  moreover have "counts_at_default (s\<lparr>post_likes := filter (\<lambda>x. \<not> hit x) (post_likes s)\<rparr>)"
    using d by (simp add: counts_at_default_def)
  ultimately show ?thesis
    using engagement_rows_default by blast
next
  case (InsertComment r)
  with ok have "update_engagement_score c INSERT (c_post_id r)
      (s\<lparr>comments := comments s @ [r]\<rparr>) = Inr s'"
    by (auto simp: insert_comment_def split: if_splits)
  moreover have "counts_at_default (s\<lparr>comments := comments s @ [r]\<rparr>)"
    using d by (simp add: counts_at_default_def)
  ultimately show ?thesis
    using update_engagement_score_default by blast
next
  case (DeleteComment k)
  show ?thesis
  proof (cases "list_ex (\<lambda>x. c_id x = k \<and> permits c comments_delete_policy x) (comments s)")
    case False
    with ok DeleteComment d show ?thesis by (simp add: delete_comment_def)
  next
    case True
    define doomed where "doomed = cascade_comments (length (comments s)) (comments s) [k]"
    have "for_each_row (\<lambda>x. update_engagement_score c DELETE (c_post_id x))
        (filter (\<lambda>x. c_id x \<in> set doomed) (comments s))
        (s\<lparr>comments := filter (\<lambda>x. c_id x \<notin> set doomed) (comments s)\<rparr>) = Inr s'"
      using ok DeleteComment True by (simp add: delete_comment_def Let_def doomed_def)
    moreover have "counts_at_default (s\<lparr>comments := filter (\<lambda>x. c_id x \<notin> set doomed) (comments s)\<rparr>)"
      using d by (simp add: counts_at_default_def)
    ultimately show ?thesis
      using engagement_rows_default by blast
  qed
qed

lemma run_counts_at_default: "counts_at_default s \<Longrightarrow> counts_at_default (run sts s)"
proof (induction sts arbitrary: s)
  case Nil
  then show ?case by simp
next
  case (Cons cst sts)
  obtain c st where cst: "cst = (c, st)"
    by (cases cst)
  show ?case
  proof (cases "exec c st s")
    case (Inl e)
    with Cons cst show ?thesis by simp
  next
    case (Inr s1)
    with Cons.prems have "counts_at_default s1"
      using exec_counts_at_default by blast
    with Cons.IH Inr cst show ?thesis by simp
  qed
qed

text \<open>
  Whatever statements run on the empty database, by whatever sessions, the four counters
  stored on every post and its \<open>engagement_score\<close> are 0: no statement writes the
  counters, and the score is either the default or recomputed from them.
\<close>

lemma post_counters_never_written:
  "list_all (\<lambda>p. likes_count p = Some 0 \<and> comments_count p = Some 0
                \<and> shares_count p = Some 0 \<and> saves_count p = Some 0
                \<and> engagement_score p = Some 0) (posts (run sts empty_db))"
proof -
  have "counts_at_default empty_db"
    by (simp add: counts_at_default_def empty_db_def)
  then have "counts_at_default (run sts empty_db)"
    by (rule run_counts_at_default)
  then show ?thesis
    by (simp add: counts_at_default_def)
qed

subsection \<open>Ephemeral content\<close>

lemma select_after_cleanup:
  "t \<le> now \<Longrightarrow>
     select_ephemeral_content now (cleanup_ephemeral_content t tbl) = select_ephemeral_content now tbl"
  unfolding select_ephemeral_content_def cleanup_ephemeral_content_def ephemeral_select_policy_def
  by (induction tbl) auto

lemma select_after_sweeps:
  "list_all (\<lambda>t. t \<le> now) ts \<Longrightarrow>
     select_ephemeral_content now (fold cleanup_ephemeral_content ts tbl)
       = select_ephemeral_content now tbl"
proof (induction ts arbitrary: tbl)
  case Nil
  show ?case by simp
next
  case (Cons t ts)
  from Cons.prems have t: "t \<le> now" and rest: "list_all (\<lambda>t. t \<le> now) ts"
    by simp_all
  have "select_ephemeral_content now (fold cleanup_ephemeral_content (t # ts) tbl)
          = select_ephemeral_content now (cleanup_ephemeral_content t tbl)"
    using Cons.IH [OF rest] by simp
  also have "\<dots> = select_ephemeral_content now tbl"
    by (rule select_after_cleanup [OF t])
  finally show ?case .
qed

text \<open>
  C5. An ephemeral row is returned to every reader exactly while \<open>now < expires_at\<close>;
  once \<open>now \<ge> expires_at\<close> it is not returned, whether or not the sweep has deleted it:
  any number of sweeps run at times up to \<open>now\<close> leaves what a reader sees at \<open>now\<close>
  unchanged.
\<close>

theorem ephemeral_visible_iff_not_expired:
  assumes "list_all (\<lambda>t. t \<le> now) sweeps"
  shows "(e \<in> set (select_ephemeral_content now tbl) \<longleftrightarrow> e \<in> set tbl \<and> now < e_expires_at e)
       \<and> (e \<in> set (select_ephemeral_content now (fold cleanup_ephemeral_content sweeps tbl))
            \<longleftrightarrow> e \<in> set tbl \<and> now < e_expires_at e)"
proof -
  have a: "e \<in> set (select_ephemeral_content now tbl) \<longleftrightarrow> e \<in> set tbl \<and> now < e_expires_at e"
    by (simp add: select_ephemeral_content_def ephemeral_select_policy_def)
  show ?thesis
    using a select_after_sweeps [OF assms, of tbl] by simp
qed

theorem ephemeral_visible_iff_not_expired_witness:
  "(let e = \<lparr>e_id = 1, e_creator_id = 2, e_duration_hours = 6, e_expires_at = 21600, e_created_at = 0\<rparr>
    in e \<in> set (select_ephemeral_content 21599 [e])
     \<and> e \<notin> set (select_ephemeral_content 21600 [e])
     \<and> e \<notin> set (select_ephemeral_content 21600 (fold cleanup_ephemeral_content [900, 21600] [e]))
     \<and> fold cleanup_ephemeral_content [900, 21600] [e] = [e]
     \<and> fold cleanup_ephemeral_content [21601] [e] = [])"
  using ephemeral_visible_iff_not_expired [of 21599 "[]"
      "\<lparr>e_id = 1, e_creator_id = 2, e_duration_hours = 6, e_expires_at = 21600, e_created_at = 0\<rparr>"
      "[\<lparr>e_id = 1, e_creator_id = 2, e_duration_hours = 6, e_expires_at = 21600, e_created_at = 0\<rparr>]"]
    ephemeral_visible_iff_not_expired [of 21600 "[900, 21600]"
      "\<lparr>e_id = 1, e_creator_id = 2, e_duration_hours = 6, e_expires_at = 21600, e_created_at = 0\<rparr>"
      "[\<lparr>e_id = 1, e_creator_id = 2, e_duration_hours = 6, e_expires_at = 21600, e_created_at = 0\<rparr>]"]
  by (simp add: Let_def cleanup_ephemeral_content_def select_ephemeral_content_def
      ephemeral_select_policy_def)

subsection \<open>Messages\<close>

text \<open>
  C6. No client session is returned any message: the policy of \<^verbatim>\<open>messages\<close> looks the
  caller up in \<^verbatim>\<open>conversation_participants\<close>, of which a client session may select no
  row. In the example user 1 is a participant of conversation 7 with \<open>left_at\<close> NULL and
  is returned nothing of it, as is user 2, who has left; the owner of the tables reads the
  message.
\<close>

theorem current_participant_reads_no_message:
  "select_messages (Client auth_uid) parts msgs = []
   \<and> unique_participants chat_parts
   \<and> current_participant chat_parts 7 1
   \<and> \<not> current_participant chat_parts 7 2
   \<and> map m_conversation_id chat_msgs = [7]
   \<and> select_messages (Client (Some 1)) chat_parts chat_msgs = []
   \<and> select_messages (Client (Some 2)) chat_parts chat_msgs = []
   \<and> select_messages Owner chat_parts chat_msgs = chat_msgs"
proof -
  have "select_messages (Client auth_uid) parts msgs = []"
    by (simp add: select_messages_def permits_def messages_select_policy_def
        select_conversation_participants_def conversation_participants_select_policy_def)
  moreover have "unique_participants chat_parts" "current_participant chat_parts 7 1"
      "\<not> current_participant chat_parts 7 2" "map m_conversation_id chat_msgs = [7]"
      "select_messages (Client (Some 1)) chat_parts chat_msgs = []"
      "select_messages (Client (Some 2)) chat_parts chat_msgs = []"
      "select_messages Owner chat_parts chat_msgs = chat_msgs"
    by code_simp+
  ultimately show ?thesis
    by simp
qed

subsection \<open>Signup\<close>

text \<open>
  C9 (as amended). Account creation with an id and a username not yet in use succeeds, and
  a successful account creation leaves, as one statement, a profile row of the new id
  with the display name and username of the metadata and the three counters at 0, and
  the role row \<open>('user')\<close> of the new id; it adds no settings row.
\<close>

theorem signup_creates_profile_and_role:
  "(au_id new \<notin> set (auth_users s)
      \<and> \<not> list_ex (\<lambda>p. p_id p = au_id new) (profiles s)
      \<and> (au_username new = None \<or> \<not> list_ex (\<lambda>p. p_username p = au_username new) (profiles s))
      \<and> \<not> list_ex (\<lambda>r. ur_user_id r = au_id new) (user_roles s)
     \<longrightarrow> (\<exists>s'. signup new s = Inr s'))
   \<and> (signup new s = Inr s' \<longrightarrow>
        profile_of s (au_id new) = None
      \<and> profile_of s' (au_id new) =
          Some \<lparr>p_id = au_id new, p_username = au_username new, p_display_name = au_display_name new,
                followers_count = Some 0, following_count = Some 0, posts_count = Some 0\<rparr>
      \<and> find (\<lambda>r. ur_user_id r = au_id new) (user_roles s')
          = Some \<lparr>ur_user_id = au_id new, ur_role = RoleUser\<rparr>
      \<and> user_settings s' = user_settings s)"
proof (intro conjI impI)
  assume "au_id new \<notin> set (auth_users s)
      \<and> \<not> list_ex (\<lambda>p. p_id p = au_id new) (profiles s)
      \<and> (au_username new = None \<or> \<not> list_ex (\<lambda>p. p_username p = au_username new) (profiles s))
      \<and> \<not> list_ex (\<lambda>r. ur_user_id r = au_id new) (user_roles s)"
  then show "\<exists>s'. signup new s = Inr s'"
    by (auto simp add: signup_def handle_new_user_def)
next
  assume ok: "signup new s = Inr s'"
  then have fresh: "\<not> list_ex (\<lambda>p. p_id p = au_id new) (profiles s)"
      "\<not> list_ex (\<lambda>r. ur_user_id r = au_id new) (user_roles s)"
    and s': "s' = s\<lparr>auth_users := auth_users s @ [au_id new],
                    profiles := profiles s @
                      [\<lparr>p_id = au_id new, p_username = au_username new,
                        p_display_name = au_display_name new,
                        followers_count = Some 0, following_count = Some 0, posts_count = Some 0\<rparr>],
                    user_roles := user_roles s @ [\<lparr>ur_user_id = au_id new, ur_role = RoleUser\<rparr>]\<rparr>"
    by (auto simp: signup_def handle_new_user_def split: if_splits)
  show "profile_of s (au_id new) = None"
    using find_none [OF fresh(1)] by (simp add: profile_of_def)
  show "profile_of s' (au_id new) =
          Some \<lparr>p_id = au_id new, p_username = au_username new, p_display_name = au_display_name new,
                followers_count = Some 0, following_count = Some 0, posts_count = Some 0\<rparr>"
    using find_none [OF fresh(1)] by (simp add: s' profile_of_def find_append)
  show "find (\<lambda>r. ur_user_id r = au_id new) (user_roles s')
          = Some \<lparr>ur_user_id = au_id new, ur_role = RoleUser\<rparr>"
    using find_none [OF fresh(2)] by (simp add: s' find_append)
  show "user_settings s' = user_settings s"
    by (simp add: s')
qed

theorem signup_creates_profile_and_role_witness:
  "signup \<lparr>au_id = 1, au_display_name = Some ''Ana'', au_username = Some ''ana''\<rparr> empty_db = Inr one_user
   \<and> profile_of one_user 1 =
        Some \<lparr>p_id = 1, p_username = Some ''ana'', p_display_name = Some ''Ana'',
              followers_count = Some 0, following_count = Some 0, posts_count = Some 0\<rparr>
   \<and> find (\<lambda>r. ur_user_id r = 1) (user_roles one_user) = Some \<lparr>ur_user_id = 1, ur_role = RoleUser\<rparr>
   \<and> user_settings one_user = user_settings empty_db
   \<and> signup \<lparr>au_id = 1, au_display_name = Some ''Ana'', au_username = Some ''ana''\<rparr> one_user
        = Inl UniqueViolation"
proof -
  have h: "signup \<lparr>au_id = 1, au_display_name = Some ''Ana'', au_username = Some ''ana''\<rparr> empty_db
             = Inr one_user"
    by code_simp
  have again: "signup \<lparr>au_id = 1, au_display_name = Some ''Ana'', au_username = Some ''ana''\<rparr> one_user
        = Inl UniqueViolation"
    by code_simp
  show ?thesis
    using signup_creates_profile_and_role
      [of "\<lparr>au_id = 1, au_display_name = Some ''Ana'', au_username = Some ''ana''\<rparr>" empty_db one_user]
      h again
    by simp
qed

text \<open>After the cascade there is a profile and a role for the new user, and no settings row.\<close>

theorem signup_creates_no_settings_row:
  "signup \<lparr>au_id = 1, au_display_name = Some ''Ana'', au_username = Some ''ana''\<rparr> empty_db = Inr one_user
   \<and> length (profiles one_user) = 1
   \<and> length (user_roles one_user) = 1
   \<and> \<not> list_ex (\<lambda>r. us_user_id r = 1) (user_settings one_user)
   \<and> user_settings one_user = []"
  by code_simp

subsection \<open>Purchases\<close>

lemma insert_purchase_free:
  assumes "profile_of s u \<noteq> None" and "pack_of s k \<noteq> None"
  shows "insert_purchase \<lparr>up_user_id = u, up_pack_id = k, up_amount = 0, up_payment_id = pid\<rparr> s
           = Inr (s\<lparr>user_purchases := user_purchases s @
                     [\<lparr>up_user_id = u, up_pack_id = k, up_amount = 0, up_payment_id = pid\<rparr>]\<rparr>)"
  using assms by (auto simp: insert_purchase_def)

lemma handlePurchase_free:
  assumes "profile_of s u \<noteq> None" and "pack_of s k \<noteq> None"
  shows "handlePurchase (Some u) \<lparr>st_id = k, st_price = 0, st_is_owned = False\<rparr> s
           = PackAdded (s\<lparr>user_purchases := user_purchases s @
                     [\<lparr>up_user_id = u, up_pack_id = k, up_amount = 0,
                       up_payment_id = Some ''free_download''\<rparr>]\<rparr>)"
  using insert_purchase_free [OF assms] by (simp add: handlePurchase_def)

text \<open>
  C10. The purchase table accepts the same (user, pack) again: when a user and a free pack
  exist and the page does not show the pack as owned, \<^verbatim>\<open>handlePurchase\<close> adds a
  zero-amount row with payment id \<^verbatim>\<open>free_download\<close>, and doing it again adds a second,
  equal row instead of being rejected.
\<close>

theorem repeated_free_claim_adds_row:
  assumes "profile_of s u \<noteq> None" and "pack_of s k \<noteq> None"
  shows "\<exists>s1 s2.
           handlePurchase (Some u) \<lparr>st_id = k, st_price = 0, st_is_owned = False\<rparr> s = PackAdded s1
         \<and> handlePurchase (Some u) \<lparr>st_id = k, st_price = 0, st_is_owned = False\<rparr> s1 = PackAdded s2
         \<and> purchases_of s2 u k = purchases_of s u k @
              [\<lparr>up_user_id = u, up_pack_id = k, up_amount = 0, up_payment_id = Some ''free_download''\<rparr>,
               \<lparr>up_user_id = u, up_pack_id = k, up_amount = 0, up_payment_id = Some ''free_download''\<rparr>]"
proof -
  let ?row = "\<lparr>up_user_id = u, up_pack_id = k, up_amount = 0, up_payment_id = Some ''free_download''\<rparr>"
  let ?s1 = "s\<lparr>user_purchases := user_purchases s @ [?row]\<rparr>"
  let ?s2 = "?s1\<lparr>user_purchases := user_purchases ?s1 @ [?row]\<rparr>"
  have a: "handlePurchase (Some u) \<lparr>st_id = k, st_price = 0, st_is_owned = False\<rparr> s = PackAdded ?s1"
    by (rule handlePurchase_free [OF assms])
  have "profile_of ?s1 u \<noteq> None" "pack_of ?s1 k \<noteq> None"
    using assms by (simp_all add: profile_of_def pack_of_def)
  then have b: "handlePurchase (Some u) \<lparr>st_id = k, st_price = 0, st_is_owned = False\<rparr> ?s1 = PackAdded ?s2"
    by (rule handlePurchase_free)
  have c: "purchases_of ?s2 u k = purchases_of s u k @ [?row, ?row]"
    by (simp add: purchases_of_def)
  from a b c show ?thesis
    by (intro exI [of _ ?s1] exI [of _ ?s2] conjI)
qed

theorem repeated_free_claim_adds_row_witness:
  "profile_of store_db 2 \<noteq> None \<and> pack_of store_db 50 \<noteq> None
   \<and> purchases_of store_db 2 50 = []
   \<and> (\<exists>s1 s2.
           handlePurchase (Some 2) \<lparr>st_id = 50, st_price = 0, st_is_owned = False\<rparr> store_db = PackAdded s1
         \<and> handlePurchase (Some 2) \<lparr>st_id = 50, st_price = 0, st_is_owned = False\<rparr> s1 = PackAdded s2
         \<and> purchases_of s2 2 50 =
              [\<lparr>up_user_id = 2, up_pack_id = 50, up_amount = 0, up_payment_id = Some ''free_download''\<rparr>,
               \<lparr>up_user_id = 2, up_pack_id = 50, up_amount = 0, up_payment_id = Some ''free_download''\<rparr>])"
proof -
  have h1: "profile_of store_db 2 \<noteq> None"
    by code_simp
  have h2: "pack_of store_db 50 \<noteq> None"
    by code_simp
  have h3: "purchases_of store_db 2 50 = []"
    by code_simp
  show ?thesis
    using repeated_free_claim_adds_row [OF h1 h2] h1 h2 h3 by simp
qed

subsection \<open>Ownership of sticker packs\<close>

text \<open>The entry of a listed pack: its price, and owned when bought or created by the user.\<close>

lemma store_entry_of_pack:
  assumes pk: "distinct (map sp_id (sticker_packs s))"
    and p: "pack_of s k = Some p"
  shows "store_entry (Some u) s k =
           (if sp_is_public p \<and> sp_is_approved p
            then Some \<lparr>st_id = k, st_price = sp_price p,
                       st_is_owned = (purchases_of s u k \<noteq> [] \<or> sp_creator_id p = u)\<rparr>
            else None)"
proof -
  have pin: "p \<in> set (sticker_packs s)" and pid: "sp_id p = k"
    using p find_in_set [of "\<lambda>x. sp_id x = k" "sticker_packs s" p] by (simp_all add: pack_of_def)
  have uniq: "q = p" if "q \<in> set (sticker_packs s)" "sp_id q = k" for q
  proof -
    have "find (\<lambda>r. sp_id r = sp_id q) (sticker_packs s) = Some q"
      using pk that(1) by (rule find_distinct)
    with p that(2) show ?thesis
      by (simp add: pack_of_def)
  qed
  let ?d = "useStickers (Some u) s"
  let ?listed = "sp_is_public p \<and> sp_is_approved p"
  have pub: "find (\<lambda>x. sp_id x = k) (publicPacks ?d) = (if ?listed then Some p else None)"
  proof (cases ?listed)
    case True
    then have "p \<in> set (publicPacks ?d)"
      using pin by (simp add: useStickers_def select_sticker_packs_def sticker_packs_select_policy_def)
    moreover have "distinct (map sp_id (publicPacks ?d))"
      using pk by (simp add: useStickers_def select_sticker_packs_def distinct_map_filter)
    ultimately have "find (\<lambda>r. sp_id r = sp_id p) (publicPacks ?d) = Some p"
      by (rule find_distinct [rotated])
    with True pid show ?thesis by simp
  next
    case False
    have "\<not> (\<exists>q \<in> set (publicPacks ?d). sp_id q = k)"
    proof
      assume "\<exists>q \<in> set (publicPacks ?d). sp_id q = k"
      then obtain q where q: "q \<in> set (publicPacks ?d)" "sp_id q = k"
        by blast
      then have "q \<in> set (sticker_packs s)" "sp_is_public q \<and> sp_is_approved q"
        by (simp_all add: useStickers_def select_sticker_packs_def)
      with uniq [of q] q(2) False show False
        by simp
    qed
    then have "find (\<lambda>x. sp_id x = k) (publicPacks ?d) = None"
      by (simp add: find_None_iff)
    with False show ?thesis by simp
  qed
  have owned: "k \<in> set (map sp_id (ownedPacks ?d)) \<longleftrightarrow> purchases_of s u k \<noteq> []" if ?listed
  proof
    assume "k \<in> set (map sp_id (ownedPacks ?d))"
    then have "list_ex (\<lambda>r. up_pack_id r = k)
           (filter (user_purchases_select_policy (Some u)) (user_purchases s))"
      by (auto simp: useStickers_def)
    then show "purchases_of s u k \<noteq> []"
      by (auto simp: purchases_of_def list_ex_iff user_purchases_select_policy_def filter_empty_conv)
  next
    assume "purchases_of s u k \<noteq> []"
    then have "list_ex (\<lambda>r. up_pack_id r = sp_id p)
           (filter (user_purchases_select_policy (Some u)) (user_purchases s))"
      using pid
      by (auto simp: purchases_of_def list_ex_iff user_purchases_select_policy_def filter_empty_conv)
    moreover have "p \<in> set (select_sticker_packs (Some u) s)"
      using pin that by (simp add: select_sticker_packs_def sticker_packs_select_policy_def)
    ultimately have "p \<in> set (ownedPacks ?d)"
      by (simp add: useStickers_def)
    with pid show "k \<in> set (map sp_id (ownedPacks ?d))"
      by force
  qed
  have mine: "k \<in> set (map sp_id (myPacks ?d)) \<longleftrightarrow> sp_creator_id p = u"
  proof
    assume "k \<in> set (map sp_id (myPacks ?d))"
    then have "\<exists>q. q \<in> set (sticker_packs s) \<and> sp_id q = k \<and> sp_creator_id q = u"
      by (auto simp: useStickers_def select_sticker_packs_def)
    then obtain q where q: "q \<in> set (sticker_packs s) \<and> sp_id q = k \<and> sp_creator_id q = u" ..
    with uniq [of q] show "sp_creator_id p = u"
      by simp
  next
    assume "sp_creator_id p = u"
    then have "p \<in> set (myPacks ?d)"
      using pin by (simp add: useStickers_def select_sticker_packs_def sticker_packs_select_policy_def)
    with pid show "k \<in> set (map sp_id (myPacks ?d))"
      by force
  qed
  show ?thesis
  proof (cases ?listed)
    case True
    then have f: "find (\<lambda>x. sp_id x = k) (publicPacks ?d) = Some p"
      using pub by simp
    have o: "is_owned (map sp_id (ownedPacks ?d)) (map sp_id (myPacks ?d)) k
               = (purchases_of s u k \<noteq> [] \<or> sp_creator_id p = u)"
      unfolding is_owned_def using owned [OF True] mine by simp
    have "store_entry (Some u) s k
            = Some \<lparr>st_id = sp_id p, st_price = sp_price p,
                    st_is_owned = is_owned (map sp_id (ownedPacks ?d)) (map sp_id (myPacks ?d)) (sp_id p)\<rparr>"
      unfolding store_entry_def allPacks_def Let_def find_map_rows by (simp add: f)
    then show ?thesis
      using True o pid by simp
  next
    case False
    then have f: "find (\<lambda>x. sp_id x = k) (publicPacks ?d) = None"
      using pub by auto
    have "store_entry (Some u) s k = None"
      unfolding store_entry_def allPacks_def Let_def find_map_rows by (simp add: f)
    then show ?thesis
      using False by auto
  qed
qed

lemma db_after_simps [simp]:
  "db_after AlreadyOwned s = s" "db_after (CheckoutRequested k u) s = s"
  "db_after (PackAdded s') s = s'"
  by (simp_all add: db_after_def)

text \<open>
  C8 (as amended). For a pack \<open>k\<close> that the store lists (public and approved) and a user
  \<open>u\<close>: the page holds the pack as owned iff \<open>u\<close> has a purchase row for \<open>k\<close> or created
  \<open>k\<close>. On an owned pack \<^verbatim>\<open>handlePurchase\<close> does nothing. On a paid pack that is not
  owned it starts the checkout and leaves the database as it was. On a free pack that is
  not owned it starts no checkout and adds the row \<open>(u, k, 0, 'free_download')\<close>, after
  which the page holds the pack as owned; so does any purchase row of \<open>u\<close> for \<open>k\<close> that
  is inserted. Ownership does not decide who reads the images of a pack: a file in the
  bucket \<^verbatim>\<open>stickers\<close> is returned to every session, the visitor's included.
\<close>

theorem store_ownership_by_purchase_or_creation:
  assumes pk: "distinct (map sp_id (sticker_packs s))"
    and p: "pack_of s k = Some p"
    and listed: "sp_is_public p \<and> sp_is_approved p"
  shows "\<exists>e. store_entry (Some u) s k = Some e
       \<and> st_price e = sp_price p
       \<and> (st_is_owned e \<longleftrightarrow> purchases_of s u k \<noteq> [] \<or> sp_creator_id p = u)
       \<and> (st_is_owned e \<longrightarrow> handlePurchase (Some u) e s = AlreadyOwned)
       \<and> (\<not> st_is_owned e \<and> sp_price p \<noteq> 0 \<longrightarrow>
            handlePurchase (Some u) e s = CheckoutRequested k u
          \<and> db_after (handlePurchase (Some u) e s) s = s)
       \<and> (\<not> st_is_owned e \<and> sp_price p = 0 \<and> profile_of s u \<noteq> None \<longrightarrow>
            (\<exists>s' e'. handlePurchase (Some u) e s = PackAdded s'
               \<and> purchases_of s' u k =
                   [\<lparr>up_user_id = u, up_pack_id = k, up_amount = 0,
                     up_payment_id = Some ''free_download''\<rparr>]
               \<and> store_entry (Some u) s' k = Some e' \<and> st_is_owned e'))
       \<and> (up_user_id r = u \<and> up_pack_id r = k \<and> insert_purchase r s = Inr s2 \<longrightarrow>
            (\<exists>e2. store_entry (Some u) s2 k = Some e2 \<and> st_is_owned e2))
       \<and> (so_bucket_id obj = ''stickers'' \<longrightarrow>
            permits (Client auth_uid) storage_objects_select_policy obj)"
proof -
  let ?e = "\<lparr>st_id = k, st_price = sp_price p,
             st_is_owned = (purchases_of s u k \<noteq> [] \<or> sp_creator_id p = u)\<rparr>"
  let ?row = "\<lparr>up_user_id = u, up_pack_id = k, up_amount = 0, up_payment_id = Some ''free_download''\<rparr>"
  have e: "store_entry (Some u) s k = Some ?e"
    using store_entry_of_pack [OF pk p, of u] listed by simp
  have after: "\<exists>e'. store_entry (Some u) t k = Some e' \<and> st_is_owned e'"
    if t: "sticker_packs t = sticker_packs s" and bought: "purchases_of t u k \<noteq> []" for t
  proof -
    have "distinct (map sp_id (sticker_packs t))" "pack_of t k = Some p"
      using pk p by (simp_all add: t pack_of_def)
    from store_entry_of_pack [OF this, of u] listed bought show ?thesis
      by simp
  qed
  have owned: "handlePurchase (Some u) ?e s = AlreadyOwned" if "st_is_owned ?e"
    using that by (simp add: handlePurchase_def)
  have paid: "handlePurchase (Some u) ?e s = CheckoutRequested k u
          \<and> db_after (handlePurchase (Some u) ?e s) s = s"
    if "\<not> st_is_owned ?e \<and> sp_price p \<noteq> 0"
    using that by (simp add: handlePurchase_def)
  have free: "\<exists>s' e'. handlePurchase (Some u) ?e s = PackAdded s'
               \<and> purchases_of s' u k = [?row]
               \<and> store_entry (Some u) s' k = Some e' \<and> st_is_owned e'"
    if a: "\<not> st_is_owned ?e \<and> sp_price p = 0 \<and> profile_of s u \<noteq> None"
  proof -
    let ?s' = "s\<lparr>user_purchases := user_purchases s @ [?row]\<rparr>"
    have ins: "insert_purchase ?row s = Inr ?s'"
      using a p by (intro insert_purchase_free) simp_all
    have h: "handlePurchase (Some u) ?e s = PackAdded ?s'"
      using a ins by (simp add: handlePurchase_def)
    have none: "purchases_of s u k = []"
      using a by simp
    have rows: "purchases_of ?s' u k = [?row]"
      using none by (simp add: purchases_of_def)
    from after [of ?s'] rows obtain e' where "store_entry (Some u) ?s' k = Some e' \<and> st_is_owned e'"
      by auto
    with h rows show ?thesis
      by (intro exI [of _ ?s'] exI [of _ e']) simp
  qed
  have callback: "\<exists>e2. store_entry (Some u) s2 k = Some e2 \<and> st_is_owned e2"
    if a: "up_user_id r = u \<and> up_pack_id r = k \<and> insert_purchase r s = Inr s2"
  proof -
    from a obtain amt where s2: "s2 = s\<lparr>user_purchases := user_purchases s @ [r\<lparr>up_amount := amt\<rparr>]\<rparr>"
      by (auto simp: insert_purchase_def and_then_eq_Inr split: if_splits)
    have "purchases_of s2 u k \<noteq> []"
      using a by (simp add: s2 purchases_of_def)
    moreover have "sticker_packs s2 = sticker_packs s"
      by (simp add: s2)
    ultimately show ?thesis
      using after [of s2] by simp
  qed
  have files: "permits (Client auth_uid) storage_objects_select_policy obj"
    if "so_bucket_id obj = ''stickers''"
    using that by (simp add: permits_def storage_objects_select_policy_def)
  show ?thesis
    using e owned paid free callback files by (intro exI [of _ ?e]) simp
qed

theorem store_ownership_by_purchase_or_creation_witness:
  "distinct (map sp_id (sticker_packs store_db))
   \<and> pack_of store_db 50 = Some (cats_pack 0 True)
   \<and> store_entry (Some 2) store_db 50 = Some \<lparr>st_id = 50, st_price = 0, st_is_owned = False\<rparr>
   \<and> purchases_of store_db 2 50 = []
   \<and> handlePurchase (Some 2) \<lparr>st_id = 50, st_price = 0, st_is_owned = False\<rparr> store_db
       = PackAdded (store_db\<lparr>user_purchases :=
           [\<lparr>up_user_id = 2, up_pack_id = 50, up_amount = 0, up_payment_id = Some ''free_download''\<rparr>]\<rparr>)
   \<and> store_entry (Some 2) (store_db\<lparr>user_purchases :=
           [\<lparr>up_user_id = 2, up_pack_id = 50, up_amount = 0, up_payment_id = Some ''free_download''\<rparr>]\<rparr>) 50
       = Some \<lparr>st_id = 50, st_price = 0, st_is_owned = True\<rparr>
   \<and> store_entry (Some 2) store_db 51 = Some \<lparr>st_id = 51, st_price = 5 / 2, st_is_owned = False\<rparr>
   \<and> handlePurchase (Some 2) \<lparr>st_id = 51, st_price = 5 / 2, st_is_owned = False\<rparr> store_db
       = CheckoutRequested 51 2
   \<and> insert_purchase \<lparr>up_user_id = 2, up_pack_id = 51, up_amount = 5 / 2,
                        up_payment_id = Some ''mp-1''\<rparr> store_db
       = Inr (store_db\<lparr>user_purchases :=
           [\<lparr>up_user_id = 2, up_pack_id = 51, up_amount = 5 / 2, up_payment_id = Some ''mp-1''\<rparr>]\<rparr>)
   \<and> store_entry (Some 2) (store_db\<lparr>user_purchases :=
           [\<lparr>up_user_id = 2, up_pack_id = 51, up_amount = 5 / 2, up_payment_id = Some ''mp-1''\<rparr>]\<rparr>) 51
       = Some \<lparr>st_id = 51, st_price = 5 / 2, st_is_owned = True\<rparr>
   \<and> store_entry (Some 1) store_db 51 = Some \<lparr>st_id = 51, st_price = 5 / 2, st_is_owned = True\<rparr>
   \<and> handlePurchase (Some 1) \<lparr>st_id = 51, st_price = 5 / 2, st_is_owned = True\<rparr> store_db
       = AlreadyOwned
   \<and> permits (Client None) storage_objects_select_policy
       \<lparr>so_bucket_id = ''stickers'', so_name = ''1/51/1700000000000-ouro.png''\<rparr>"
proof -
  let ?p51 = "\<lparr>sp_id = 51, sp_creator_id = 1, sp_name = ''Ouro'', sp_price = 5 / 2,
               sp_is_public = True, sp_is_approved = True, sp_sales_count = 0\<rparr>"
  let ?r = "\<lparr>up_user_id = 2, up_pack_id = 51, up_amount = 5 / 2, up_payment_id = Some ''mp-1''\<rparr>"
  have pk: "distinct (map sp_id (sticker_packs store_db))"
    by code_simp
  have p50: "pack_of store_db 50 = Some (cats_pack 0 True)"
    by code_simp
  have p51: "pack_of store_db 51 = Some ?p51"
    by code_simp
  have listed50: "sp_is_public (cats_pack 0 True) \<and> sp_is_approved (cats_pack 0 True)"
    by code_simp
  have listed51: "sp_is_public ?p51 \<and> sp_is_approved ?p51"
    by simp
  have rest: "store_entry (Some 2) store_db 50 = Some \<lparr>st_id = 50, st_price = 0, st_is_owned = False\<rparr>"
    "purchases_of store_db 2 50 = []"
    "handlePurchase (Some 2) \<lparr>st_id = 50, st_price = 0, st_is_owned = False\<rparr> store_db
       = PackAdded (store_db\<lparr>user_purchases :=
           [\<lparr>up_user_id = 2, up_pack_id = 50, up_amount = 0, up_payment_id = Some ''free_download''\<rparr>]\<rparr>)"
    "store_entry (Some 2) (store_db\<lparr>user_purchases :=
           [\<lparr>up_user_id = 2, up_pack_id = 50, up_amount = 0, up_payment_id = Some ''free_download''\<rparr>]\<rparr>) 50
       = Some \<lparr>st_id = 50, st_price = 0, st_is_owned = True\<rparr>"
    "store_entry (Some 2) store_db 51 = Some \<lparr>st_id = 51, st_price = 5 / 2, st_is_owned = False\<rparr>"
    "handlePurchase (Some 2) \<lparr>st_id = 51, st_price = 5 / 2, st_is_owned = False\<rparr> store_db
       = CheckoutRequested 51 2"
    "insert_purchase ?r store_db = Inr (store_db\<lparr>user_purchases := [?r]\<rparr>)"
    "store_entry (Some 2) (store_db\<lparr>user_purchases := [?r]\<rparr>) 51
       = Some \<lparr>st_id = 51, st_price = 5 / 2, st_is_owned = True\<rparr>"
    "store_entry (Some 1) store_db 51 = Some \<lparr>st_id = 51, st_price = 5 / 2, st_is_owned = True\<rparr>"
    "handlePurchase (Some 1) \<lparr>st_id = 51, st_price = 5 / 2, st_is_owned = True\<rparr> store_db
       = AlreadyOwned"
    by code_simp+
  show ?thesis
    using store_ownership_by_purchase_or_creation [OF pk p50 listed50, of 2]
      store_ownership_by_purchase_or_creation [OF pk p51 listed51, of 2 ?r
        "store_db\<lparr>user_purchases := [?r]\<rparr>"]
      store_ownership_by_purchase_or_creation [OF pk p51 listed51, of 1 _ _
        "\<lparr>so_bucket_id = ''stickers'', so_name = ''1/51/1700000000000-ouro.png''\<rparr>" None]
      pk p50 rest
    by simp
qed

text \<open>
  The creator of a pack owns it with no purchase row, also when the pack is paid, and a
  request of the creator adds none; a free pack that the user neither bought nor created
  is not owned; an image of the paid pack is returned to a user with no purchase row.
\<close>

theorem creator_owns_paid_pack_without_purchase:
  "map_option sp_price (pack_of store_db 51) = Some (5 / 2)
   \<and> purchases_of store_db 1 51 = []
   \<and> store_entry (Some 1) store_db 51 = Some \<lparr>st_id = 51, st_price = 5 / 2, st_is_owned = True\<rparr>
   \<and> handlePurchase (Some 1) \<lparr>st_id = 51, st_price = 5 / 2, st_is_owned = True\<rparr> store_db = AlreadyOwned
   \<and> map_option sp_price (pack_of store_db 50) = Some 0
   \<and> purchases_of store_db 1 50 = []
   \<and> store_entry (Some 1) store_db 50 = Some \<lparr>st_id = 50, st_price = 0, st_is_owned = True\<rparr>
   \<and> handlePurchase (Some 1) \<lparr>st_id = 50, st_price = 0, st_is_owned = True\<rparr> store_db = AlreadyOwned
   \<and> purchases_of store_db 2 50 = []
   \<and> store_entry (Some 2) store_db 50 = Some \<lparr>st_id = 50, st_price = 0, st_is_owned = False\<rparr>
   \<and> purchases_of store_db 2 51 = []
   \<and> permits (Client (Some 2)) storage_objects_select_policy
       \<lparr>so_bucket_id = ''stickers'', so_name = ''1/51/1700000000000-ouro.png''\<rparr>"
  by code_simp

subsection \<open>Creating a sticker pack\<close>

text \<open>What a successful \<^verbatim>\<open>handleSubmit\<close> adds: one row, approved exactly when the price
  field holds the text \<open>0\<close>; a pack stored with a price other than 0 is not approved.\<close>

lemma handleSubmit_row:
  assumes "handleSubmit user form new_id s = PackCreated s'"
  shows "\<exists>p. sticker_packs s' = sticker_packs s @ [p] \<and> sp_id p = new_id
           \<and> sp_is_approved p = (f_price form = ''0'')
           \<and> sp_is_public p = f_isPublic form
           \<and> (sp_price p \<noteq> 0 \<longrightarrow> \<not> sp_is_approved p)"
proof -
  have zero: "or_zero (parseFloat ''0'') = 0"
    by code_simp
  from assms obtain uid price where
    s': "s' = s\<lparr>sticker_packs := sticker_packs s @
           [\<lparr>sp_id = new_id, sp_creator_id = uid, sp_name = trim (f_packName form),
             sp_price = price, sp_is_public = f_isPublic form,
             sp_is_approved = (f_price form = ''0''), sp_sales_count = 0\<rparr>]\<rparr>"
    and price: "decimal_10_2 (or_zero (parseFloat (f_price form))) = Inr price"
    by (auto simp: handleSubmit_def insert_sticker_pack_def and_then_eq_Inr
        split: option.splits if_splits sum.splits)
  have "f_price form = ''0'' \<Longrightarrow> price = 0"
    using price zero by simp
  then show ?thesis
    unfolding s' by auto
qed

text \<open>
  C7. With the price field at its initial text \<open>0\<close> the pack is created free and approved.
  With \<open>0.00\<close>, or with the field emptied, the stored price is 0 as well, and the pack is
  created unapproved: other users are not shown it, although it is free and public. A pack
  with price 2.50 is created unapproved and is shown to its creator only.
\<close>

theorem free_pack_by_other_price_text_not_approved:
  "handleSubmit (Some 1) (cats_form ''0'') 50 one_user
     = PackCreated (one_user\<lparr>sticker_packs := [cats_pack 0 True]\<rparr>)
   \<and> handleSubmit (Some 1) (cats_form ''0.00'') 50 one_user
     = PackCreated (one_user\<lparr>sticker_packs := [cats_pack 0 False]\<rparr>)
   \<and> handleSubmit (Some 1) (cats_form []) 50 one_user
     = PackCreated (one_user\<lparr>sticker_packs := [cats_pack 0 False]\<rparr>)
   \<and> handleSubmit (Some 1) (cats_form ''2.50'') 50 one_user
     = PackCreated (one_user\<lparr>sticker_packs := [cats_pack (5 / 2) False]\<rparr>)
   \<and> select_sticker_packs (Some 2) (one_user\<lparr>sticker_packs := [cats_pack 0 True]\<rparr>) = [cats_pack 0 True]
   \<and> select_sticker_packs (Some 2) (one_user\<lparr>sticker_packs := [cats_pack 0 False]\<rparr>) = []
   \<and> select_sticker_packs (Some 2) (one_user\<lparr>sticker_packs := [cats_pack (5 / 2) False]\<rparr>) = []
   \<and> select_sticker_packs (Some 1) (one_user\<lparr>sticker_packs := [cats_pack (5 / 2) False]\<rparr>)
       = [cats_pack (5 / 2) False]"
  by code_simp

end
